theory Spec2Isabelle
  imports Complex_Main
begin

section \<open>Vectors and the elementwise operations of the notebook\<close>

text \<open>
  The notebook \<^verbatim>\<open>Gradients_and_Vector_Jacobian_Products.ipynb\<close> works on
  one-dimensional numpy arrays of floating-point numbers. A vector is modelled as a list of
  real numbers: the arithmetic is the exact arithmetic that the floating-point operations
  approximate.
\<close>

type_synonym vec = "real list"

text \<open>
  \<^verbatim>\<open>ValueError\<close> is what numpy raises when two operands cannot be broadcast together;
  \<^verbatim>\<open>InvalidInput\<close> is the error the specification names for operands of different lengths.
\<close>

datatype error = ValueError | InvalidInput

text \<open>
  An elementwise binary operation \<^verbatim>\<open>a op b\<close> of numpy on one-dimensional arrays, whatever
  the arithmetic of the elements: operands
  of the same length are combined index by index, an operand of length one is broadcast
  along the other, and everything else raises.
\<close>

definition broadcast2 :: "('a \<Rightarrow> 'a \<Rightarrow> 'b) \<Rightarrow> 'a list \<Rightarrow> 'a list \<Rightarrow> error + 'b list" where
  "broadcast2 f a b =
     (if length a = length b then Inr (map2 f a b)
      else if length a = 1 then Inr (map (\<lambda>v. f (hd a) v) b)
      else if length b = 1 then Inr (map (\<lambda>u. f u (hd b)) a)
      else Inl ValueError)"

text \<open>
  \<^verbatim>\<open>f1 = lambda g: g ** 2\<close>,
  \<^verbatim>\<open>f2 = lambda g: np.exp(g)\<close>,
  \<^verbatim>\<open>h = lambda x: f2(f1(x))\<close>.
\<close>

definition f1 :: "vec \<Rightarrow> vec" where
  "f1 g = map (\<lambda>a. a ^ 2) g"

definition f2 :: "vec \<Rightarrow> vec" where
  "f2 g = map exp g"

definition h :: "vec \<Rightarrow> vec" where
  "h x = f2 (f1 x)"

text \<open>
  \<^verbatim>\<open>L = lambda h, y: np.sum((h - y) ** 2)\<close> and
  \<^verbatim>\<open>L_x = lambda x, y: np.sum((h(x) - y) ** 2)\<close>. The subtraction is the
  broadcasting one, so the loss raises only where numpy does.
\<close>

definition L :: "vec \<Rightarrow> vec \<Rightarrow> error + real" where
  "L hv yv =
     (case broadcast2 (-) hv yv of
        Inl e \<Rightarrow> Inl e
      | Inr d \<Rightarrow> Inr (sum_list (map (\<lambda>a. a ^ 2) d)))"

definition L_x :: "vec \<Rightarrow> vec \<Rightarrow> error + real" where
  "L_x x yv =
     (case broadcast2 (-) (h x) yv of
        Inl e \<Rightarrow> Inl e
      | Inr d \<Rightarrow> Inr (sum_list (map (\<lambda>a. a ^ 2) d)))"

text \<open>
  \<^verbatim>\<open>g = lambda v: v[::-1] * np.arange(1, v.size + 1)\<close>. Both operands of the
  product have the length of \<^verbatim>\<open>v\<close>, so it never broadcasts and never raises.
\<close>

definition g :: "vec \<Rightarrow> vec" where
  "g v = map2 (*) (rev v) (map real [1..<length v + 1])"

section \<open>Derivative operations obtained from the automatic differentiator\<close>

text \<open>
  The notebook obtains every derivative from the autograd library
  (\<^verbatim>\<open>grad\<close>, \<^verbatim>\<open>make_vjp\<close>, \<^verbatim>\<open>make_jvp_reversemode\<close>, \<^verbatim>\<open>make_hvp\<close>), which
  is not part of the repository. The operations below carry the names the notebook binds
  the library's results to, and compute the closed forms the specification and the notebook's
  hand derivation give for them. Further down each closed form is proved to be the partial
  derivative of the function of the notebook it differentiates.
\<close>

text \<open>
  Modelled from the spec: the error behaviour of the derivative operations, which autograd
  decides. Operands of different lengths signal \<^verbatim>\<open>InvalidInput\<close>; otherwise the operation is
  applied index by index.
\<close>

definition elementwise :: "(real \<Rightarrow> real \<Rightarrow> real) \<Rightarrow> vec \<Rightarrow> vec \<Rightarrow> error + vec" where
  "elementwise f a b = (if length a = length b then Inr (map2 f a b) else Inl InvalidInput)"

text \<open>A square matrix of dimension \<open>n\<close> is its entry function; \<open>J v\<close> and \<open>J\<^sup>T v\<close>.\<close>

definition matvec :: "nat \<Rightarrow> (nat \<Rightarrow> nat \<Rightarrow> real) \<Rightarrow> vec \<Rightarrow> vec" where
  "matvec n J p = map (\<lambda>i. \<Sum>j<n. J i j * p ! j) [0..<n]"

definition matTvec :: "nat \<Rightarrow> (nat \<Rightarrow> nat \<Rightarrow> real) \<Rightarrow> vec \<Rightarrow> vec" where
  "matTvec n J p = map (\<lambda>j. \<Sum>i<n. J i j * p ! i) [0..<n]"

definition symmetric :: "nat \<Rightarrow> (nat \<Rightarrow> nat \<Rightarrow> real) \<Rightarrow> bool" where
  "symmetric n J = (\<forall>i<n. \<forall>j<n. J i j = J j i)"

text \<open>
  Modelled from the spec: \<^verbatim>\<open>grad_L_h_func = grad(L, [0])\<close>, the gradient of the loss with
  respect to the prediction (autograd's \<^verbatim>\<open>grad\<close> is missing); element \<open>i\<close> is
  \<open>2 * (h[i] - y[i])\<close>.
\<close>

definition grad_L_h_func :: "vec \<Rightarrow> vec \<Rightarrow> error + vec" where
  "grad_L_h_func hv yv = elementwise (\<lambda>a b. 2 * (a - b)) hv yv"

text \<open>
  Modelled from the spec: \<^verbatim>\<open>vjp_h_f1_func, h_value = make_vjp(h_f1)(f1_value)\<close>, the
  vector-Jacobian product of \<^verbatim>\<open>h_f1 = lambda f1: f2(f1)\<close> built at \<^verbatim>\<open>f1_value\<close>
  (autograd's \<^verbatim>\<open>make_vjp\<close> is missing); element \<open>i\<close> is \<open>exp (f1_value[i]) * v[i]\<close>,
  which is \<open>exp (x[i]\<^sup>2) * v[i]\<close> at \<^verbatim>\<open>f1_value = f1(x)\<close>.
\<close>

definition vjp_h_f1_func :: "vec \<Rightarrow> vec \<Rightarrow> error + vec" where
  "vjp_h_f1_func f1_value v = elementwise (\<lambda>a b. exp a * b) f1_value v"

text \<open>
  Modelled from the spec: \<^verbatim>\<open>vjp_f1_x_func, f1_value = make_vjp(f1)(x)\<close>
  (autograd's \<^verbatim>\<open>make_vjp\<close> is missing); element \<open>i\<close> is \<open>2 * x[i] * v[i]\<close>.
\<close>

definition vjp_f1_x_func :: "vec \<Rightarrow> vec \<Rightarrow> error + vec" where
  "vjp_f1_x_func x v = elementwise (\<lambda>a b. 2 * a * b) x v"

text \<open>
  Modelled from the spec: \<^verbatim>\<open>grad_L_x_func = grad(L_x, [0])\<close>, the gradient of the loss
  with respect to the input (autograd's \<^verbatim>\<open>grad\<close> is missing); element \<open>i\<close> is
  \<open>4 * (h[i] - y[i]) * h[i] * x[i]\<close> with \<open>h[i] = exp (x[i]\<^sup>2)\<close>.
\<close>

definition grad_L_x_func :: "vec \<Rightarrow> vec \<Rightarrow> error + vec" where
  "grad_L_x_func x yv = elementwise (\<lambda>a b. 4 * (exp (a ^ 2) - b) * exp (a ^ 2) * a) x yv"

text \<open>
  \<^verbatim>\<open>J_L_h = grad_L_h_func(h(x), y)\<close> followed by
  \<^verbatim>\<open>J_L_x_explicit = vjp_f1_x_func(vjp_h_f1_func(J_L_h))\<close>, the two products built at
  \<^verbatim>\<open>f1(x)\<close> and at \<^verbatim>\<open>x\<close>: the backward pass written as a chain of products. An error of
  a stage ends the chain.
\<close>

definition J_L_x_explicit :: "vec \<Rightarrow> vec \<Rightarrow> error + vec" where
  "J_L_x_explicit x yv =
     (case grad_L_h_func (h x) yv of
        Inl e \<Rightarrow> Inl e
      | Inr J_L_h \<Rightarrow>
          (case vjp_h_f1_func (f1 x) J_L_h of
             Inl e \<Rightarrow> Inl e
           | Inr VJP_L_f1 \<Rightarrow> vjp_f1_x_func x VJP_L_f1))"

text \<open>
  The step-wise Jacobians of the notebook's hand derivation:
  \<^verbatim>\<open>J_f2_f1 = [[exp(x1^2), 0], [0, exp(x2^2)]]\<close>, written at \<^verbatim>\<open>f1_value = x^2\<close>, and
  \<^verbatim>\<open>J_f1_x = [[2 * x1, 0], [0, 2 * x2]]\<close>.
\<close>

definition J_f2_f1 :: "vec \<Rightarrow> nat \<Rightarrow> nat \<Rightarrow> real" where
  "J_f2_f1 f1_value i j = (if i = j then exp (f1_value ! i) else 0)"

definition J_f1_x :: "vec \<Rightarrow> nat \<Rightarrow> nat \<Rightarrow> real" where
  "J_f1_x x i j = (if i = j then 2 * x ! i else 0)"

text \<open>
  The Jacobian of \<^verbatim>\<open>g\<close> on vectors of length \<open>n\<close>, as the notebook writes it for
  \<open>n = 2\<close> (\<^verbatim>\<open>J = [[0, 1], [2, 0]]\<close>): row \<open>i\<close> has the single entry \<open>i + 1\<close>, in column
  \<open>n - 1 - i\<close>.
\<close>

definition J_g :: "nat \<Rightarrow> nat \<Rightarrow> nat \<Rightarrow> real" where
  "J_g n i j = (if i + j + 1 = n then real (i + 1) else 0)"

text \<open>
  The Jacobian of \<^verbatim>\<open>g\<close> in the words of the specification:
  \<^verbatim>\<open>J[i][j] = (j+1) if i+j == N-1 else 0\<close>. It is kept apart from \<open>J_g\<close> to be compared
  with it.
\<close>

definition J_g_spec :: "nat \<Rightarrow> nat \<Rightarrow> nat \<Rightarrow> real" where
  "J_g_spec n i j = (if i + j = n - 1 then real (j + 1) else 0)"

text \<open>
  Modelled from the spec: \<^verbatim>\<open>vjp_g_v_func, _ = make_vjp(g)(v)\<close> (autograd's
  \<^verbatim>\<open>make_vjp\<close> is missing): the transposed Jacobian of \<^verbatim>\<open>g\<close> times \<open>p\<close>.
\<close>

definition vjp_g_v_func :: "vec \<Rightarrow> vec \<Rightarrow> error + vec" where
  "vjp_g_v_func v p =
     (if length p = length v then Inr (matTvec (length v) (J_g (length v)) p)
      else Inl InvalidInput)"

text \<open>
  Modelled from the spec: \<^verbatim>\<open>jvp_g_v_func = make_jvp_reversemode(g)(v)\<close> (autograd's
  \<^verbatim>\<open>make_jvp_reversemode\<close> is missing): the Jacobian of \<^verbatim>\<open>g\<close> times \<open>p\<close>.
\<close>

definition jvp_g_v_func :: "vec \<Rightarrow> vec \<Rightarrow> error + vec" where
  "jvp_g_v_func v p =
     (if length p = length v then Inr (matvec (length v) (J_g (length v)) p)
      else Inl InvalidInput)"

text \<open>
  The Hessian of the loss with respect to the prediction, \<^verbatim>\<open>d^2L / dh^2 = diag(2)\<close> in
  the notebook.
\<close>

definition H_L_h :: "nat \<Rightarrow> nat \<Rightarrow> real" where
  "H_L_h i j = (if i = j then 2 else 0)"

text \<open>
  Modelled from the spec: \<^verbatim>\<open>hvp_L_h_func, _ = make_hvp(L)(h(x), y)\<close> (autograd's
  \<^verbatim>\<open>make_hvp\<close> is missing): the Hessian of \<^verbatim>\<open>L\<close> at \<open>(hv, yv)\<close> times \<open>v\<close>, for \<open>v\<close> of
  the dimension of the problem.
\<close>

definition hvp_L_h_func :: "vec \<Rightarrow> vec \<Rightarrow> vec \<Rightarrow> error + vec" where
  "hvp_L_h_func hv yv v =
     (if length hv = length yv \<and> length v = length hv
      then Inr (matvec (length hv) H_L_h v)
      else Inl InvalidInput)"

text \<open>
  The partial derivative of output \<open>i\<close> of \<open>F\<close> with respect to input \<open>j\<close>, at \<open>v\<close>, is \<open>d\<close>.
\<close>

definition partial :: "(vec \<Rightarrow> vec) \<Rightarrow> vec \<Rightarrow> nat \<Rightarrow> nat \<Rightarrow> real \<Rightarrow> bool" where
  "partial F v i j d = ((\<lambda>t. F (v[j := t]) ! i) has_real_derivative d) (at (v ! j))"

text \<open>The partial derivative of a scalar function with respect to input \<open>j\<close>.\<close>

definition partial1 :: "(vec \<Rightarrow> real) \<Rightarrow> vec \<Rightarrow> nat \<Rightarrow> real \<Rightarrow> bool" where
  "partial1 F v j d = ((\<lambda>t. F (v[j := t])) has_real_derivative d) (at (v ! j))"

section \<open>The arithmetic of float64\<close>

text \<open>
  The arrays of the notebook hold IEEE 754 binary64 numbers. Where rounding decides a
  property, the operations are taken in that arithmetic: a value is a finite number, an
  infinity or a NaN (the two zeros are not told apart), and every operation returns the
  exact result rounded to the nearest float64, ties to the even significand.
\<close>

datatype float64 = Finite real | PInf | NInf | NaN

text \<open>
The nearest integer, ties to the even one.
\<close>

definition rte :: "real \<Rightarrow> int" where
  "rte t =
     (let f = \<lfloor>t\<rfloor> in
      if t - of_int f < 1 / 2 then f
      else if 1 / 2 < t - of_int f then f + 1
      else if even f then f else f + 1)"

text \<open>
  The spacing of the float64 numbers around \<open>x\<close>: \<open>2\<^sup>e\<^sup>-\<^sup>5\<^sup>2\<close> in the binade
  \<open>2\<^sup>e \<le> \<bar>x\<bar> < 2\<^sup>e\<^sup>+\<^sup>1\<close>, and \<open>2\<^sup>-\<^sup>1\<^sup>0\<^sup>7\<^sup>4\<close> below the smallest normal number
  \<open>2\<^sup>-\<^sup>1\<^sup>0\<^sup>2\<^sup>2\<close>. Rounding takes \<open>x\<close> to the nearest multiple of the spacing.
\<close>

definition ulp :: "real \<Rightarrow> real" where
  "ulp x = 2 powi (max \<lfloor>log 2 \<bar>x\<bar>\<rfloor> (- 1022) - 52)"

definition rnd :: "real \<Rightarrow> real" where
  "rnd x = (if x = 0 then 0 else of_int (rte (x / ulp x)) * ulp x)"

text \<open>
  The largest float64 number, \<open>(2\<^sup>5\<^sup>3 - 1) * 2\<^sup>9\<^sup>7\<^sup>1\<close>; a result that rounds beyond it
  overflows to the infinity of its sign.
\<close>

definition max_float64 :: real where
  "max_float64 = (2 ^ 53 - 1) * 2 ^ 971"

definition round64 :: "real \<Rightarrow> float64" where
  "round64 x =
     (let r = rnd x in
      if \<bar>r\<bar> \<le> max_float64 then Finite r else if 0 < x then PInf else NInf)"

text \<open>
  Addition, subtraction and multiplication of float64 values, with the results the standard
  gives for infinities and NaN.
\<close>

fun fadd :: "float64 \<Rightarrow> float64 \<Rightarrow> float64" where
  "fadd (Finite x) (Finite y) = round64 (x + y)"
| "fadd NaN _ = NaN"
| "fadd _ NaN = NaN"
| "fadd PInf NInf = NaN"
| "fadd NInf PInf = NaN"
| "fadd PInf _ = PInf"
| "fadd _ PInf = PInf"
| "fadd NInf _ = NInf"
| "fadd _ NInf = NInf"

fun fsub :: "float64 \<Rightarrow> float64 \<Rightarrow> float64" where
  "fsub (Finite x) (Finite y) = round64 (x - y)"
| "fsub NaN _ = NaN"
| "fsub _ NaN = NaN"
| "fsub PInf PInf = NaN"
| "fsub NInf NInf = NaN"
| "fsub PInf _ = PInf"
| "fsub _ PInf = NInf"
| "fsub NInf _ = NInf"
| "fsub _ NInf = PInf"

fun fmul :: "float64 \<Rightarrow> float64 \<Rightarrow> float64" where
  "fmul (Finite x) (Finite y) = round64 (x * y)"
| "fmul NaN _ = NaN"
| "fmul _ NaN = NaN"
| "fmul PInf (Finite y) = (if y = 0 then NaN else if 0 < y then PInf else NInf)"
| "fmul NInf (Finite y) = (if y = 0 then NaN else if 0 < y then NInf else PInf)"
| "fmul (Finite x) PInf = (if x = 0 then NaN else if 0 < x then PInf else NInf)"
| "fmul (Finite x) NInf = (if x = 0 then NaN else if 0 < x then NInf else PInf)"
| "fmul PInf PInf = PInf"
| "fmul NInf NInf = PInf"
| "fmul PInf NInf = NInf"
| "fmul NInf PInf = NInf"

text \<open>
  A value is a finite float64 number when it is finite and rounding leaves it unchanged;
  \<open>fge0 v\<close> is the comparison \<^verbatim>\<open>v >= 0\<close>, which is false of a NaN.
\<close>

definition finite_float64 :: "float64 \<Rightarrow> bool" where
  "finite_float64 v = (case v of Finite x \<Rightarrow> round64 x = Finite x | _ \<Rightarrow> False)"

definition fge0 :: "float64 \<Rightarrow> bool" where
  "fge0 v = (case v of Finite r \<Rightarrow> 0 \<le> r | PInf \<Rightarrow> True | _ \<Rightarrow> False)"

text \<open>
  \<^verbatim>\<open>L = lambda h, y: np.sum((h - y) ** 2)\<close> in float64 arithmetic: the broadcasting
  subtraction, the square of each element by one rounded multiplication, and the sum of
  the squares, added one after the other starting from zero. That is the order of numpy on
  arrays of fewer than eight elements; on longer arrays it makes the same rounded additions
  in blocks.
\<close>

definition L_float64 :: "float64 list \<Rightarrow> float64 list \<Rightarrow> error + float64" where
  "L_float64 hv yv =
     (case broadcast2 fsub hv yv of
        Inl e \<Rightarrow> Inl e
      | Inr d \<Rightarrow> Inr (foldl fadd (Finite 0) (map (\<lambda>a. fmul a a) d)))"

text \<open>
  Modelled from the spec: \<^verbatim>\<open>grad_L_h_func = grad(L, [0])\<close> in float64 arithmetic (autograd's
  \<^verbatim>\<open>grad\<close> is missing); element \<open>i\<close> is \<open>2 * (h[i] - y[i])\<close>, the subtraction and the
  product rounded.
\<close>

definition grad_L_h_func_float64 :: "float64 list \<Rightarrow> float64 list \<Rightarrow> error + float64 list" where
  "grad_L_h_func_float64 hv yv =
     (if length hv = length yv then Inr (map2 (\<lambda>a b. fmul (Finite 2) (fsub a b)) hv yv)
      else Inl InvalidInput)"

text \<open>
  Every float64 number is an integer multiple of \<open>2\<^sup>-\<^sup>1\<^sup>0\<^sup>7\<^sup>4\<close>; a square or a sum of
  squares is such a multiple that is not negative, or the positive infinity.
\<close>

definition on_grid :: "real \<Rightarrow> bool" where
  "on_grid x = (\<exists>n :: int. x = of_int n * 2 powi (- 1074))"

definition grid_nonneg :: "float64 \<Rightarrow> bool" where
  "grid_nonneg v = (case v of Finite r \<Rightarrow> 0 \<le> r \<and> on_grid r | PInf \<Rightarrow> True | _ \<Rightarrow> False)"

section \<open>Basic facts about the forward model\<close>

lemma length_f1: "length (f1 x) = length x"
  by (simp add: f1_def)

lemma length_h: "length (h x) = length x"
  by (simp add: h_def f2_def f1_def)

lemma f1_nth: "i < length x \<Longrightarrow> f1 x ! i = (x ! i) ^ 2"
  by (simp add: f1_def)

lemma h_nth: "i < length x \<Longrightarrow> h x ! i = exp ((x ! i) ^ 2)"
  by (simp add: h_def f2_def f1_def)

lemma sum_list_map2_nth:
  assumes "length a = length b"
  shows "sum_list (map k (map2 f a b)) = (\<Sum>i<length a. k (f (a ! i) (b ! i)))"
proof -
  have "sum_list (map k (map2 f a b)) = (\<Sum>i = 0..<length a. map k (map2 f a b) ! i)"
    using assms by (simp add: sum_list_sum_nth)
  also have "\<dots> = (\<Sum>i = 0..<length a. k (f (a ! i) (b ! i)))"
    using assms by (intro sum.cong) simp_all
  finally show ?thesis
    by (simp add: atLeast0LessThan)
qed

lemma L_equal_length:
  assumes "length hv = length yv"
  shows "L hv yv = Inr (\<Sum>i<length hv. (hv ! i - yv ! i) ^ 2)"
proof -
  have "broadcast2 (-) hv yv = Inr (map2 (-) hv yv)"
    using assms by (simp add: broadcast2_def)
  then have "L hv yv = Inr (sum_list (map (\<lambda>a. a ^ 2) (map2 (-) hv yv)))"
    by (simp only: L_def sum.case)
  then show ?thesis
    by (simp only: sum_list_map2_nth [OF assms])
qed

lemma L_x_eq_L: "L_x x yv = L (h x) yv"
  by (simp add: L_x_def L_def)

section \<open>The forward pass and the loss\<close>

text \<open>
  Claim C6. For every vector \<open>x\<close> the forward pass gives \<open>f1\<close> with
  \<open>f1[i] = x[i]\<^sup>2\<close> and \<open>h\<close> with \<open>h[i] = exp (f1[i])\<close> at every index, both of the length
  of \<open>x\<close>; and for vectors \<open>hv\<close>, \<open>yv\<close> of equal length the loss returns the single number
  \<open>\<Sum>i. (hv[i] - yv[i])\<^sup>2\<close>, also when it is computed from \<open>x\<close> by \<open>L_x\<close>.
\<close>

theorem forward_and_loss:
  assumes "length hv = length yv" and "length x = length yv"
  shows "length (f1 x) = length x \<and> length (h x) = length x
    \<and> (\<forall>i<length x. f1 x ! i = (x ! i) ^ 2 \<and> h x ! i = exp (f1 x ! i))
    \<and> L hv yv = Inr (\<Sum>i<length hv. (hv ! i - yv ! i) ^ 2)
    \<and> L_x x yv = Inr (\<Sum>i<length x. (h x ! i - yv ! i) ^ 2)"
  using assms
  by (simp add: length_f1 length_h f1_nth h_nth L_equal_length L_x_eq_L)

theorem forward_and_loss_witness:
  "f1 [1, 2] = [1, 4] \<and> h [1, 2] = [exp 1, exp 4] \<and> L [1, 2] [3, 5] = Inr 13"
proof -
  have e: "length [1, 2 :: real] = length [3, 5 :: real]"
    by simp
  from forward_and_loss [OF e e]
  have "L [1, 2] [3, 5] = Inr (\<Sum>i<length [1, 2 :: real]. ([1, 2] ! i - [3, 5] ! i) ^ 2)"
    by blast
  then have "L [1, 2] [3, 5] = Inr 13"
    by (simp add: lessThan_Suc eval_nat_numeral)
  then show ?thesis
    by (simp add: f1_def h_def f2_def)
qed

section \<open>Bounds on the forward pass\<close>

text \<open>
  Claim C9. For every input vector \<open>x\<close> the forward values are bounded at every index:
  \<open>f1[i] = x[i]\<^sup>2 \<ge> 0\<close> and \<open>h[i] = exp (f1[i]) \<ge> 1 > 0\<close>. So the prediction \<open>h x\<close> is never a
  target that has a component that is not positive.
\<close>

theorem forward_bounds:
  "(\<forall>i<length x. 0 \<le> f1 x ! i \<and> 1 \<le> h x ! i \<and> 0 < h x ! i)
   \<and> ((\<exists>i<length yv. yv ! i \<le> 0) \<longrightarrow> h x \<noteq> yv)"
proof -
  have b: "0 \<le> f1 x ! i \<and> 1 \<le> h x ! i \<and> 0 < h x ! i" if "i < length x" for i
    using that by (simp add: f1_nth h_nth)
  have "h x \<noteq> yv" if "i < length yv" and "yv ! i \<le> 0" for i
  proof
    assume e: "h x = yv"
    then have "i < length x"
      using that(1) length_h [of x] by simp
    then have "0 < h x ! i"
      using b by blast
    then show False
      using e that(2) by simp
  qed
  then show ?thesis
    using b by blast
qed

theorem forward_bounds_witness:
  "1 \<le> h [0, 3] ! 1 \<and> h [0, 3] \<noteq> [1, 0]"
proof -
  have "\<exists>i<length [1, 0 :: real]. [1, 0 :: real] ! i \<le> 0"
    by (rule exI [of _ 1]) simp
  then show ?thesis
    using forward_bounds [of "[0, 3]" "[1, 0]"] by simp
qed

section \<open>When the loss raises\<close>

lemma L_cases:
  "L hv yv =
     (if length hv = length yv \<or> length hv = 1 \<or> length yv = 1
      then Inr (sum_list (map (\<lambda>a. a ^ 2) (projr (broadcast2 (-) hv yv))))
      else Inl ValueError)"
  by (simp add: L_def broadcast2_def)

text \<open>
  Claim C8 says that the loss raises exactly when its two vectors have different lengths.
  The subtraction of the notebook is numpy's, which broadcasts an operand of length one:
  on a prediction of length two and a target of length one the loss returns a number.
\<close>

theorem loss_mismatch_counterexample:
  "length [1, 2 :: real] \<noteq> length [3 :: real] \<and> L [1, 2] [3] = Inr 5"
  by (simp add: L_def broadcast2_def)

text \<open>
  Claim C8, amended. The loss \<open>L\<close> raises exactly when the two vectors have different lengths
  and neither has length one; in every other case it returns a number, it has no other
  error, and \<open>L_x\<close> is the loss of the prediction \<open>h x\<close>, with the same error. Being a
  function of its arguments, it computes nothing when it raises.
\<close>

theorem loss_raises_iff:
  "(L hv yv = Inl ValueError \<longleftrightarrow> length hv \<noteq> length yv \<and> length hv \<noteq> 1 \<and> length yv \<noteq> 1)
   \<and> ((\<exists>l. L hv yv = Inr l) \<longleftrightarrow> length hv = length yv \<or> length hv = 1 \<or> length yv = 1)
   \<and> L hv yv \<noteq> Inl InvalidInput
   \<and> L_x x yv = L (h x) yv"
  by (simp add: L_cases L_x_eq_L)

theorem loss_raises_iff_witness:
  "L [1, 2, 3] [4, 5] = Inl ValueError \<and> (\<exists>l. L [1, 2] [3] = Inr l)"
  using loss_raises_iff [of "[1, 2, 3]" "[4, 5]"] loss_raises_iff [of "[1, 2]" "[3]"]
  by simp

section \<open>The derivative operations are the derivatives of the notebook's functions\<close>

lemma sum_split_index:
  fixes a :: "nat \<Rightarrow> real"
  assumes "j < n"
  shows "(\<Sum>i<n. a i) = a j + (\<Sum>i\<in>{..<n} - {j}. a i)"
  using assms by (simp add: sum.remove)

lemma loss_update_h:
  assumes "length hv = length yv" and "j < length hv"
  shows "projr (L (hv[j := t]) yv)
    = (t - yv ! j) ^ 2 + (\<Sum>i\<in>{..<length hv} - {j}. (hv ! i - yv ! i) ^ 2)"
proof -
  have "projr (L (hv[j := t]) yv) = (\<Sum>i<length hv. (hv[j := t] ! i - yv ! i) ^ 2)"
    using assms(1) L_equal_length [of "hv[j := t]" yv] by simp
  also have "\<dots> = (hv[j := t] ! j - yv ! j) ^ 2
      + (\<Sum>i\<in>{..<length hv} - {j}. (hv[j := t] ! i - yv ! i) ^ 2)"
    using assms(2) by (rule sum_split_index)
  also have "(\<Sum>i\<in>{..<length hv} - {j}. (hv[j := t] ! i - yv ! i) ^ 2)
      = (\<Sum>i\<in>{..<length hv} - {j}. (hv ! i - yv ! i) ^ 2)"
    by (rule sum.cong) simp_all
  finally show ?thesis
    using assms(2) by simp
qed

lemma grad_L_h_is_gradient:
  assumes "length hv = length yv" and "j < length hv"
  shows "partial1 (\<lambda>u. projr (L u yv)) hv j (2 * (hv ! j - yv ! j))"
proof -
  have "((\<lambda>t. (t - yv ! j) ^ 2 + (\<Sum>i\<in>{..<length hv} - {j}. (hv ! i - yv ! i) ^ 2))
      has_real_derivative 2 * (hv ! j - yv ! j)) (at (hv ! j))"
    by (auto intro!: derivative_eq_intros)
  then show ?thesis
    unfolding partial1_def by (simp only: loss_update_h [OF assms])
qed

lemma loss_update_x:
  assumes "length x = length yv" and "j < length x"
  shows "projr (L_x (x[j := t]) yv)
    = (exp (t ^ 2) - yv ! j) ^ 2
      + (\<Sum>i\<in>{..<length x} - {j}. (exp ((x ! i) ^ 2) - yv ! i) ^ 2)"
proof -
  have "projr (L_x (x[j := t]) yv)
      = (\<Sum>i<length x. (h (x[j := t]) ! i - yv ! i) ^ 2)"
    using assms(1) L_equal_length [of "h (x[j := t])" yv]
    by (simp add: L_x_eq_L length_h)
  also have "\<dots> = (\<Sum>i<length x. (exp ((x[j := t] ! i) ^ 2) - yv ! i) ^ 2)"
    by (rule sum.cong) (simp_all add: h_nth)
  also have "\<dots> = (exp ((x[j := t] ! j) ^ 2) - yv ! j) ^ 2
      + (\<Sum>i\<in>{..<length x} - {j}. (exp ((x[j := t] ! i) ^ 2) - yv ! i) ^ 2)"
    using assms(2) by (rule sum_split_index)
  also have "(\<Sum>i\<in>{..<length x} - {j}. (exp ((x[j := t] ! i) ^ 2) - yv ! i) ^ 2)
      = (\<Sum>i\<in>{..<length x} - {j}. (exp ((x ! i) ^ 2) - yv ! i) ^ 2)"
    by (rule sum.cong) simp_all
  finally show ?thesis
    using assms(2) by simp
qed

lemma grad_L_x_is_gradient:
  assumes "length x = length yv" and "j < length x"
  shows "partial1 (\<lambda>u. projr (L_x u yv)) x j (4 * (h x ! j - yv ! j) * h x ! j * x ! j)"
proof -
  have "((\<lambda>t. (exp (t ^ 2) - yv ! j) ^ 2
        + (\<Sum>i\<in>{..<length x} - {j}. (exp ((x ! i) ^ 2) - yv ! i) ^ 2))
      has_real_derivative 4 * (exp ((x ! j) ^ 2) - yv ! j) * exp ((x ! j) ^ 2) * x ! j)
      (at (x ! j))"
    by (auto intro!: derivative_eq_intros)
  then show ?thesis
    unfolding partial1_def using assms(2)
    by (simp only: loss_update_x [OF assms] h_nth)
qed

lemma f1_jacobian:
  assumes "i < length x" and "j < length x"
  shows "partial f1 x i j (J_f1_x x i j)"
proof (cases "i = j")
  case True
  have "((\<lambda>t. t ^ 2) has_real_derivative 2 * x ! j) (at (x ! j))"
    by (auto intro!: derivative_eq_intros)
  then show ?thesis
    using assms True by (simp add: partial_def J_f1_x_def f1_nth)
next
  case False
  then show ?thesis
    using assms by (simp add: partial_def J_f1_x_def f1_nth)
qed

lemma f2_jacobian:
  assumes "i < length a" and "j < length a"
  shows "partial f2 a i j (J_f2_f1 a i j)"
proof (cases "i = j")
  case True
  have "((\<lambda>t. exp t) has_real_derivative exp (a ! j)) (at (a ! j))"
    by (auto intro!: derivative_eq_intros)
  then show ?thesis
    using assms True by (simp add: partial_def J_f2_f1_def f2_def)
next
  case False
  then show ?thesis
    using assms by (simp add: partial_def J_f2_f1_def f2_def)
qed

lemma length_g: "length (g v) = length v"
  by (simp add: g_def del: upt_Suc)

lemma g_nth: "i < length v \<Longrightarrow> g v ! i = v ! (length v - 1 - i) * real (i + 1)"
  by (simp add: g_def rev_nth del: upt_Suc)

lemma g_jacobian:
  assumes "i < length v" and "j < length v"
  shows "partial g v i j (J_g (length v) i j)"
proof (cases "i + j + 1 = length v")
  case True
  then have k: "length v - 1 - i = j"
    by simp
  have "((\<lambda>t. t * real (i + 1)) has_real_derivative real (i + 1)) (at (v ! j))"
    by (auto intro!: derivative_eq_intros)
  then show ?thesis
    using assms True k by (simp add: partial_def J_g_def g_nth)
next
  case False
  then have k: "length v - 1 - i \<noteq> j"
    using assms by auto
  then show ?thesis
    using assms False by (simp add: partial_def J_g_def g_nth)
qed

lemma hessian_L_h:
  assumes "length hv = length yv" and "i < length hv" and "j < length hv"
  shows "partial (\<lambda>u. projr (grad_L_h_func u yv)) hv i j (H_L_h i j)"
proof (cases "i = j")
  case True
  have "((\<lambda>t. 2 * (t - yv ! j)) has_real_derivative 2) (at (hv ! j))"
    by (auto intro!: derivative_eq_intros)
  then show ?thesis
    using assms True by (simp add: partial_def H_L_h_def grad_L_h_func_def elementwise_def)
next
  case False
  then show ?thesis
    using assms by (simp add: partial_def H_L_h_def grad_L_h_func_def elementwise_def)
qed

section \<open>Products with diagonal and symmetric matrices\<close>

lemma matvec_symmetric:
  assumes "symmetric n J"
  shows "matTvec n J p = matvec n J p"
proof -
  have "(\<Sum>i<n. J i j * p ! i) = (\<Sum>i<n. J j i * p ! i)" if "j < n" for j
    using assms that by (intro sum.cong) (simp_all add: symmetric_def)
  then show ?thesis
    by (simp add: matTvec_def matvec_def)
qed

lemma matvec_diag:
  assumes "length v = length d"
  shows "matvec (length d) (\<lambda>i j. if i = j then k (d ! i) else 0) v = map2 (\<lambda>a b. k a * b) d v"
proof (rule nth_equalityI)
  show "length (matvec (length d) (\<lambda>i j. if i = j then k (d ! i) else 0) v)
      = length (map2 (\<lambda>a b. k a * b) d v)"
    using assms by (simp add: matvec_def)
next
  fix i
  assume "i < length (matvec (length d) (\<lambda>i j. if i = j then k (d ! i) else 0) v)"
  then have i: "i < length d"
    by (simp add: matvec_def)
  have "(\<Sum>j<length d. (if i = j then k (d ! i) else 0) * v ! j)
      = (\<Sum>j<length d. (if i = j then k (d ! j) * v ! j else 0))"
    by (rule sum.cong) simp_all
  also have "\<dots> = k (d ! i) * v ! i"
    using i by simp
  finally show "matvec (length d) (\<lambda>i j. if i = j then k (d ! i) else 0) v ! i
      = map2 (\<lambda>a b. k a * b) d v ! i"
    using i assms by (simp add: matvec_def cong: if_cong)
qed

lemma symmetric_J_f1_x: "symmetric n (J_f1_x x)"
  by (simp add: symmetric_def J_f1_x_def)

lemma symmetric_J_f2_f1: "symmetric n (J_f2_f1 a)"
  by (simp add: symmetric_def J_f2_f1_def)

lemma vjp_f1_x_matvec:
  assumes "length v = length x"
  shows "vjp_f1_x_func x v = Inr (matvec (length x) (J_f1_x x) v)"
proof -
  have "J_f1_x x = (\<lambda>i j. if i = j then (\<lambda>a. 2 * a) (x ! i) else 0)"
    by (simp add: J_f1_x_def fun_eq_iff)
  then have "matvec (length x) (J_f1_x x) v = map2 (\<lambda>a b. 2 * a * b) x v"
    using matvec_diag [OF assms, of "\<lambda>a. 2 * a"] by simp
  then show ?thesis
    using assms by (simp add: vjp_f1_x_func_def elementwise_def)
qed

lemma vjp_h_f1_matvec:
  assumes "length v = length a"
  shows "vjp_h_f1_func a v = Inr (matvec (length a) (J_f2_f1 a) v)"
proof -
  have "J_f2_f1 a = (\<lambda>i j. if i = j then exp (a ! i) else 0)"
    by (simp add: J_f2_f1_def fun_eq_iff)
  then have "matvec (length a) (J_f2_f1 a) v = map2 (\<lambda>a b. exp a * b) a v"
    using matvec_diag [OF assms, of exp] by simp
  then show ?thesis
    using assms by (simp add: vjp_h_f1_func_def elementwise_def)
qed

lemma hvp_twice:
  assumes "length hv = length yv" and "length v = length hv"
  shows "hvp_L_h_func hv yv v = Inr (map (\<lambda>a. 2 * a) v)"
proof -
  have "H_L_h = (\<lambda>i j. if i = j then (\<lambda>a. 2) (hv ! i) else 0)"
    by (simp add: H_L_h_def fun_eq_iff)
  then have "matvec (length hv) H_L_h v = map2 (\<lambda>a b. 2 * b) hv v"
    using matvec_diag [OF assms(2), of "\<lambda>a. 2"] by simp
  also have "\<dots> = map (\<lambda>a. 2 * a) v"
    using assms(2) by (intro nth_equalityI) simp_all
  finally show ?thesis
    using assms by (simp add: hvp_L_h_func_def)
qed

section \<open>The loss and its gradient vanish only at the target\<close>

lemma sum_squares_zero_iff:
  fixes a :: "nat \<Rightarrow> real"
  shows "(\<Sum>i<n. (a i) ^ 2) = 0 \<longleftrightarrow> (\<forall>i<n. a i = 0)"
  by (auto simp: sum_nonneg_eq_0_iff)

text \<open>
  In exact arithmetic the loss of vectors of equal length is not negative and is zero
  exactly when the vectors are equal, and so is its gradient.
\<close>

lemma exact_loss_zero_iff:
  assumes "length hv = length yv"
  shows "(\<exists>l. L hv yv = Inr l \<and> 0 \<le> l \<and> (l = 0 \<longleftrightarrow> hv = yv))
    \<and> (grad_L_h_func hv yv = Inr (replicate (length hv) 0) \<longleftrightarrow> hv = yv)"
proof -
  let ?l = "\<Sum>i<length hv. (hv ! i - yv ! i) ^ 2"
  have 1: "L hv yv = Inr ?l"
    using assms by (rule L_equal_length)
  have 2: "0 \<le> ?l"
    by (simp add: sum_nonneg)
  have "?l = 0 \<longleftrightarrow> (\<forall>i<length hv. hv ! i - yv ! i = 0)"
    by (rule sum_squares_zero_iff)
  also have "\<dots> \<longleftrightarrow> hv = yv"
    using assms by (auto simp: list_eq_iff_nth_eq)
  finally have 3: "?l = 0 \<longleftrightarrow> hv = yv" .
  have "grad_L_h_func hv yv = Inr (replicate (length hv) 0)
      \<longleftrightarrow> map2 (\<lambda>a b. 2 * (a - b)) hv yv = replicate (length hv) 0"
    using assms by (simp add: grad_L_h_func_def elementwise_def)
  also have "\<dots> \<longleftrightarrow> (\<forall>i<length hv. 2 * (hv ! i - yv ! i) = 0)"
    using assms by (simp add: list_eq_iff_nth_eq)
  also have "\<dots> \<longleftrightarrow> hv = yv"
    using assms by (auto simp: list_eq_iff_nth_eq)
  finally have 4: "grad_L_h_func hv yv = Inr (replicate (length hv) 0) \<longleftrightarrow> hv = yv" .
  show ?thesis
    using 1 2 3 4 by blast
qed

section \<open>Rounding to float64\<close>

lemma rte_eq_0_iff: "rte t = 0 \<longleftrightarrow> \<bar>t\<bar> \<le> 1 / 2"
proof -
  have "\<lfloor>t\<rfloor> = 0 \<or> \<lfloor>t\<rfloor> = - 1 \<or> \<lfloor>t\<rfloor> < - 1 \<or> 0 < \<lfloor>t\<rfloor>"
    by linarith
  then show ?thesis
    unfolding rte_def Let_def by (auto; linarith)
qed

lemma rte_nonneg: "0 \<le> t \<Longrightarrow> 0 \<le> rte t"
  unfolding rte_def Let_def by auto

lemma rte_of_int: "rte (of_int n) = n"
  unfolding rte_def Let_def by simp

lemma two_powi_add: "(2 :: real) powi (a + b) = 2 powi a * 2 powi b"
  by (rule power_int_add) simp

lemma ulp_pos: "0 < ulp x"
  by (simp add: ulp_def)

lemma ulp_grid: "\<exists>k :: nat. ulp x = 2 ^ k * 2 powi (- 1074)"
proof -
  define e where "e = max \<lfloor>log 2 \<bar>x\<bar>\<rfloor> (- 1022)"
  have "0 \<le> e + 1022"
    by (simp add: e_def)
  then have "e - 52 = int (nat (e + 1022)) + (- 1074)"
    by simp
  then have "(2 :: real) powi (e - 52) = 2 powi (int (nat (e + 1022))) * 2 powi (- 1074)"
    by (simp only: two_powi_add)
  then have "(2 :: real) powi (e - 52) = 2 ^ nat (e + 1022) * 2 powi (- 1074)"
    by (simp only: power_int_of_nat)
  then show ?thesis
    unfolding ulp_def e_def [symmetric] by (rule exI)
qed

lemma rnd_on_grid: "on_grid (rnd x)"
proof (cases "x = 0")
  case True
  then show ?thesis
    by (auto simp: rnd_def on_grid_def intro: exI [of _ 0])
next
  case False
  obtain k :: nat where k: "ulp x = 2 ^ k * 2 powi (- 1074)"
    using ulp_grid by blast
  have "rnd x = of_int (rte (x / ulp x) * 2 ^ k) * 2 powi (- 1074)"
    using False by (simp add: rnd_def k)
  then show ?thesis
    unfolding on_grid_def by blast
qed

lemma rnd_nonneg: "0 \<le> x \<Longrightarrow> 0 \<le> rnd x"
  using ulp_pos [of x] by (simp add: rnd_def rte_nonneg)

lemma floor_log2_le:
  assumes "0 < a"
  shows "2 powi \<lfloor>log 2 a\<rfloor> \<le> a"
proof -
  have "2 powr (of_int \<lfloor>log 2 a\<rfloor>) \<le> a"
    using assms by (simp add: le_log_iff [symmetric])
  then show ?thesis
    by (simp add: powr_real_of_int')
qed

lemma rnd_eq_0_iff: "rnd x = 0 \<longleftrightarrow> \<bar>x\<bar> \<le> 2 powi (- 1075)"
proof (cases "x = 0")
  case True
  then show ?thesis
    by (simp add: rnd_def)
next
  case False
  define e where "e = max \<lfloor>log 2 \<bar>x\<bar>\<rfloor> (- 1022)"
  have u: "ulp x = 2 powi (e - 52)"
    by (simp add: ulp_def e_def)
  have half: "ulp x / 2 = 2 powi (e - 53)"
  proof -
    have "e - 52 = (e - 53) + 1"
      by simp
    then have "(2 :: real) powi (e - 52) = 2 powi (e - 53) * 2 powi 1"
      by (simp only: two_powi_add)
    then have "(2 :: real) powi (e - 52) = 2 powi (e - 53) * 2"
      by simp
    then show ?thesis
      by (simp add: u)
  qed
  have "rnd x = 0 \<longleftrightarrow> rte (x / ulp x) = 0"
    using False ulp_pos [of x] by (simp add: rnd_def)
  also have "\<dots> \<longleftrightarrow> \<bar>x / ulp x\<bar> \<le> 1 / 2"
    by (rule rte_eq_0_iff)
  also have "\<dots> \<longleftrightarrow> \<bar>x\<bar> \<le> ulp x / 2"
    using ulp_pos [of x] by (simp add: field_simps abs_mult)
  finally have main: "rnd x = 0 \<longleftrightarrow> \<bar>x\<bar> \<le> 2 powi (e - 53)"
    by (simp only: half)
  show ?thesis
  proof (cases "\<lfloor>log 2 \<bar>x\<bar>\<rfloor> \<le> - 1022")
    case True
    then have "e = - 1022"
      by (simp add: e_def)
    then show ?thesis
      using main by simp
  next
    case False
    then have e: "e = \<lfloor>log 2 \<bar>x\<bar>\<rfloor>" and big: "- 1022 < e"
      by (simp_all add: e_def)
    have le: "2 powi e \<le> \<bar>x\<bar>"
      unfolding e using \<open>x \<noteq> 0\<close> by (intro floor_log2_le) simp
    have "(2 :: real) powi (e - 53) < 2 powi e"
      by (intro power_int_strict_increasing) simp_all
    moreover have "(2 :: real) powi (- 1075) < 2 powi e"
      using big by (intro power_int_strict_increasing) simp_all
    ultimately show ?thesis
      using main le by linarith
  qed
qed

lemma grid_nonzero:
  assumes "on_grid x" and "x \<noteq> 0"
  shows "2 powi (- 1074) \<le> \<bar>x\<bar>"
proof -
  obtain n :: int where n: "x = of_int n * 2 powi (- 1074)"
    using assms(1) unfolding on_grid_def by blast
  then have "n \<noteq> 0"
    using assms(2) by auto
  then have "1 \<le> \<bar>real_of_int n\<bar>"
    by linarith
  then have "1 * 2 powi (- 1074) \<le> \<bar>real_of_int n\<bar> * 2 powi (- 1074)"
    by (intro mult_right_mono) simp_all
  then show ?thesis
    by (simp add: n abs_mult)
qed

lemma grid_not_tiny:
  assumes "on_grid x" and "\<bar>x\<bar> \<le> 2 powi (- 1075)"
  shows "x = 0"
proof (rule ccontr)
  assume "x \<noteq> 0"
  then have "2 powi (- 1074) \<le> \<bar>x\<bar>"
    by (rule grid_nonzero [OF assms(1)])
  moreover have "(2 :: real) powi (- 1075) < 2 powi (- 1074)"
    by (intro power_int_strict_increasing) simp_all
  ultimately show False
    using assms(2) by linarith
qed

lemma on_grid_diff: "on_grid x \<Longrightarrow> on_grid y \<Longrightarrow> on_grid (x - y)"
  unfolding on_grid_def
proof -
  assume "\<exists>n :: int. x = of_int n * 2 powi (- 1074)" and "\<exists>n :: int. y = of_int n * 2 powi (- 1074)"
  then obtain n m :: int where "x = of_int n * 2 powi (- 1074)" "y = of_int m * 2 powi (- 1074)"
    by blast
  then have "x - y = of_int (n - m) * 2 powi (- 1074)"
    by (simp add: algebra_simps)
  then show "\<exists>n :: int. x - y = of_int n * 2 powi (- 1074)"
    by blast
qed

lemma on_grid_add: "on_grid x \<Longrightarrow> on_grid y \<Longrightarrow> on_grid (x + y)"
  unfolding on_grid_def
proof -
  assume "\<exists>n :: int. x = of_int n * 2 powi (- 1074)" and "\<exists>n :: int. y = of_int n * 2 powi (- 1074)"
  then obtain n m :: int where "x = of_int n * 2 powi (- 1074)" "y = of_int m * 2 powi (- 1074)"
    by blast
  then have "x + y = of_int (n + m) * 2 powi (- 1074)"
    by (simp add: algebra_simps)
  then show "\<exists>n :: int. x + y = of_int n * 2 powi (- 1074)"
    by blast
qed

lemma on_grid_double: "on_grid x \<Longrightarrow> on_grid (2 * x)"
  using on_grid_add [of x x] by simp

section \<open>Squares and sums of squares in float64\<close>

lemma max_float64_nonneg: "0 \<le> max_float64"
  by (simp add: max_float64_def)

lemma round64_cases:
  "round64 z = Finite (rnd z) \<or> (round64 z = PInf \<and> 0 < z) \<or> (round64 z = NInf \<and> z < 0)"
proof (cases "\<bar>rnd z\<bar> \<le> max_float64")
  case True
  then show ?thesis
    by (simp add: round64_def)
next
  case False
  then have "rnd z \<noteq> 0"
    using max_float64_nonneg by auto
  then have "z \<noteq> 0"
    by (auto simp: rnd_def)
  then show ?thesis
    using False by (auto simp: round64_def)
qed

lemma round64_eq_zero_iff: "round64 z = Finite 0 \<longleftrightarrow> \<bar>z\<bar> \<le> 2 powi (- 1075)"
proof -
  have "round64 z = Finite 0 \<longleftrightarrow> rnd z = 0"
    using max_float64_nonneg by (auto simp: round64_def Let_def)
  then show ?thesis
    by (simp only: rnd_eq_0_iff)
qed

lemma round64_grid_eq_zero_iff: "on_grid z \<Longrightarrow> round64 z = Finite 0 \<longleftrightarrow> z = 0"
proof -
  assume g: "on_grid z"
  have "(0 :: real) \<le> 2 powi (- 1075)"
    by (rule less_imp_le) (rule zero_less_power_int, simp)
  then show ?thesis
    using grid_not_tiny [OF g] by (auto simp only: round64_eq_zero_iff abs_zero)
qed

lemma grid_nonneg_round64: "0 \<le> z \<Longrightarrow> grid_nonneg (round64 z)"
  using round64_cases [of z] rnd_nonneg [of z] rnd_on_grid [of z]
  by (auto simp: grid_nonneg_def)

lemma finite_float64_D:
  assumes "finite_float64 v"
  obtains x where "v = Finite x" and "on_grid x"
proof -
  from assms obtain x where v: "v = Finite x" and r: "round64 x = Finite x"
    by (auto simp: finite_float64_def split: float64.splits)
  have "rnd x = x"
    using r round64_cases [of x] by auto
  then have "on_grid x"
    using rnd_on_grid [of x] by simp
  then show ?thesis
    using v that by blast
qed

lemma fsub_eq_zero_iff:
  assumes "finite_float64 a" and "finite_float64 b"
  shows "fsub a b = Finite 0 \<longleftrightarrow> a = b"
proof -
  from assms(1) obtain x where a: "a = Finite x" and x: "on_grid x"
    by (rule finite_float64_D)
  from assms(2) obtain y where b: "b = Finite y" and y: "on_grid y"
    by (rule finite_float64_D)
  have "on_grid (x - y)"
    using x y by (rule on_grid_diff)
  then have "round64 (x - y) = Finite 0 \<longleftrightarrow> x - y = 0"
    by (rule round64_grid_eq_zero_iff)
  then show ?thesis
    by (simp add: a b)
qed

lemma fsub_finite_cases:
  assumes "finite_float64 a" and "finite_float64 b"
  shows "(\<exists>d. fsub a b = Finite d \<and> on_grid d) \<or> fsub a b = PInf \<or> fsub a b = NInf"
proof -
  from assms(1) obtain x where a: "a = Finite x" and x: "on_grid x"
    by (rule finite_float64_D)
  from assms(2) obtain y where b: "b = Finite y" and y: "on_grid y"
    by (rule finite_float64_D)
  show ?thesis
    using round64_cases [of "x - y"] rnd_on_grid [of "x - y"] by (auto simp: a b)
qed

lemma square_grid_nonneg:
  assumes "(\<exists>d. v = Finite d) \<or> v = PInf \<or> v = NInf"
  shows "grid_nonneg (fmul v v)"
proof -
  have "grid_nonneg (fmul (Finite d) (Finite d))" for d
    using grid_nonneg_round64 [of "d * d"] by simp
  moreover have "grid_nonneg (fmul PInf PInf)" and "grid_nonneg (fmul NInf NInf)"
    by (simp_all add: grid_nonneg_def)
  ultimately show ?thesis
    using assms by blast
qed

lemma square_eq_zero_iff:
  "fmul v v = Finite 0 \<longleftrightarrow> (\<exists>d. v = Finite d \<and> d ^ 2 \<le> 2 powi (- 1075))"
proof (cases v)
  case (Finite d)
  have "\<bar>d * d\<bar> = d ^ 2"
    by (simp add: power2_eq_square)
  then show ?thesis
    by (simp add: Finite round64_eq_zero_iff del: abs_mult_self_eq)
qed simp_all

lemma fadd_grid_nonneg:
  assumes "grid_nonneg a" and "grid_nonneg b"
  shows "grid_nonneg (fadd a b)"
proof (cases a)
  case a: (Finite r)
  show ?thesis
  proof (cases b)
    case b: (Finite s)
    have "0 \<le> r + s"
      using assms by (simp add: a b grid_nonneg_def)
    then show ?thesis
      by (simp add: a b grid_nonneg_round64)
  qed (use assms in \<open>simp_all add: a grid_nonneg_def\<close>)
next
  case PInf
  then show ?thesis
    using assms by (cases b) (simp_all add: grid_nonneg_def)
qed (use assms in \<open>simp_all add: grid_nonneg_def\<close>)

lemma fadd_eq_zero_iff:
  assumes "grid_nonneg a" and "grid_nonneg b"
  shows "fadd a b = Finite 0 \<longleftrightarrow> a = Finite 0 \<and> b = Finite 0"
proof (cases a)
  case a: (Finite r)
  show ?thesis
  proof (cases b)
    case b: (Finite s)
    have rs: "0 \<le> r" "0 \<le> s" "on_grid r" "on_grid s"
      using assms by (simp_all add: a b grid_nonneg_def)
    then have "on_grid (r + s)"
      by (intro on_grid_add)
    then have "round64 (r + s) = Finite 0 \<longleftrightarrow> r + s = 0"
      by (rule round64_grid_eq_zero_iff)
    then show ?thesis
      using rs by (auto simp: a b)
  qed (use assms in \<open>simp_all add: a grid_nonneg_def\<close>)
next
  case PInf
  then show ?thesis
    using assms by (cases b) (simp_all add: grid_nonneg_def)
qed (use assms in \<open>simp_all add: grid_nonneg_def\<close>)

lemma foldl_fadd_grid_nonneg:
  assumes "grid_nonneg acc" and "\<forall>s\<in>set ss. grid_nonneg s"
  shows "grid_nonneg (foldl fadd acc ss)"
  using assms by (induction ss arbitrary: acc) (simp_all add: fadd_grid_nonneg)

lemma foldl_fadd_eq_zero_iff:
  assumes "grid_nonneg acc" and "\<forall>s\<in>set ss. grid_nonneg s"
  shows "foldl fadd acc ss = Finite 0 \<longleftrightarrow> acc = Finite 0 \<and> (\<forall>s\<in>set ss. s = Finite 0)"
  using assms
proof (induction ss arbitrary: acc)
  case Nil
  then show ?case
    by simp
next
  case (Cons s ss)
  have "grid_nonneg (fadd acc s)"
    using Cons.prems by (simp add: fadd_grid_nonneg)
  then have "foldl fadd (fadd acc s) ss = Finite 0
      \<longleftrightarrow> fadd acc s = Finite 0 \<and> (\<forall>t\<in>set ss. t = Finite 0)"
    using Cons.prems by (intro Cons.IH) simp_all
  then show ?case
    using Cons.prems by (auto simp: fadd_eq_zero_iff)
qed

lemma grid_nonneg_fge0: "grid_nonneg v \<Longrightarrow> fge0 v"
  by (auto simp: grid_nonneg_def fge0_def split: float64.splits)

lemma double_eq_zero_iff:
  assumes "finite_float64 a" and "finite_float64 b"
  shows "fmul (Finite 2) (fsub a b) = Finite 0 \<longleftrightarrow> a = b"
proof -
  consider d where "fsub a b = Finite d" and "on_grid d" | "fsub a b = PInf" | "fsub a b = NInf"
    using fsub_finite_cases [OF assms] by blast
  then show ?thesis
  proof cases
    case 1
    have "on_grid (2 * d)"
      using 1(2) by (rule on_grid_double)
    then have "round64 (2 * d) = Finite 0 \<longleftrightarrow> 2 * d = 0"
      by (rule round64_grid_eq_zero_iff)
    then have "fmul (Finite 2) (fsub a b) = Finite 0 \<longleftrightarrow> fsub a b = Finite 0"
      by (simp add: 1(1))
    then show ?thesis
      by (simp only: fsub_eq_zero_iff [OF assms])
  next
    case 2
    then show ?thesis
      using fsub_eq_zero_iff [OF assms] by simp
  next
    case 3
    then show ?thesis
      using fsub_eq_zero_iff [OF assms] by simp
  qed
qed

lemma L_float64_equal_length:
  assumes "length hv = length yv"
  shows "L_float64 hv yv =
    Inr (foldl fadd (Finite 0) (map (\<lambda>a. fmul a a) (map2 fsub hv yv)))"
  using assms by (simp add: L_float64_def broadcast2_def)

lemma grid_nonneg_zero: "grid_nonneg (Finite 0)"
proof -
  have "(0 :: real) = of_int 0 * 2 powi (- 1074)"
    by (simp only: of_int_0 mult_zero_left)
  then have "on_grid 0"
    unfolding on_grid_def by (rule exI)
  then show ?thesis
    by (simp add: grid_nonneg_def)
qed

lemma sum64_grid_nonneg:
  assumes "\<forall>i<length ss. grid_nonneg (ss ! i)"
  shows "grid_nonneg (foldl fadd (Finite 0) ss)"
proof -
  have "\<forall>s\<in>set ss. grid_nonneg s"
    using assms by (simp only: all_set_conv_all_nth)
  then show ?thesis
    by (rule foldl_fadd_grid_nonneg [OF grid_nonneg_zero])
qed

lemma sum64_eq_zero_iff:
  assumes "\<forall>i<length ss. grid_nonneg (ss ! i)"
  shows "foldl fadd (Finite 0) ss = Finite 0 \<longleftrightarrow> (\<forall>i<length ss. ss ! i = Finite 0)"
proof -
  have "\<forall>s\<in>set ss. grid_nonneg s"
    using assms by (simp only: all_set_conv_all_nth)
  then have "foldl fadd (Finite 0) ss = Finite 0
      \<longleftrightarrow> Finite 0 = Finite 0 \<and> (\<forall>s\<in>set ss. s = Finite 0)"
    by (rule foldl_fadd_eq_zero_iff [OF grid_nonneg_zero])
  then show ?thesis
    by (simp only: all_set_conv_all_nth simp_thms)
qed

lemma squares_nth:
  assumes "length hv = length yv" and "i < length hv"
  shows "map (\<lambda>a. fmul a a) (map2 fsub hv yv) ! i
    = fmul (fsub (hv ! i) (yv ! i)) (fsub (hv ! i) (yv ! i))"
  using assms by simp

lemma squares_length:
  "length hv = length yv \<Longrightarrow> length (map (\<lambda>a. fmul a a) (map2 fsub hv yv)) = length hv"
  by simp

lemma square_finite_grid_nonneg:
  assumes "finite_float64 a" and "finite_float64 b"
  shows "grid_nonneg (fmul (fsub a b) (fsub a b))"
proof -
  have "(\<exists>d. fsub a b = Finite d) \<or> fsub a b = PInf \<or> fsub a b = NInf"
    using fsub_finite_cases [OF assms] by blast
  then show ?thesis
    by (rule square_grid_nonneg)
qed

lemma zero_small: "(0 :: real) ^ 2 \<le> 2 powi (- 1075)"
proof -
  have "(0 :: real) < 2 powi (- 1075)"
    by (rule zero_less_power_int) simp
  then show ?thesis
    by (simp only: zero_power2 less_imp_le)
qed

lemma float_loss_eq_zero_iff:
  assumes "length hv = length yv"
    and "\<forall>i<length hv. finite_float64 (hv ! i) \<and> finite_float64 (yv ! i)"
  shows "L_float64 hv yv = Inr (Finite 0) \<longleftrightarrow>
    (\<forall>i<length hv. \<exists>d. fsub (hv ! i) (yv ! i) = Finite d \<and> d ^ 2 \<le> 2 powi (- 1075))"
proof -
  let ?ss = "map (\<lambda>a. fmul a a) (map2 fsub hv yv)"
  have len: "length ?ss = length hv"
    using assms(1) by (rule squares_length)
  have ok: "\<forall>i<length ?ss. grid_nonneg (?ss ! i)"
  proof (intro allI impI)
    fix i
    assume "i < length ?ss"
    then have i: "i < length hv"
      by (simp only: len)
    then have "grid_nonneg (fmul (fsub (hv ! i) (yv ! i)) (fsub (hv ! i) (yv ! i)))"
      using assms(2) by (intro square_finite_grid_nonneg) blast+
    then show "grid_nonneg (?ss ! i)"
      by (simp only: squares_nth [OF assms(1) i])
  qed
  have "L_float64 hv yv = Inr (Finite 0) \<longleftrightarrow> foldl fadd (Finite 0) ?ss = Finite 0"
    by (simp only: L_float64_equal_length [OF assms(1)] sum.inject)
  also have "\<dots> \<longleftrightarrow> (\<forall>i<length ?ss. ?ss ! i = Finite 0)"
    using ok by (rule sum64_eq_zero_iff)
  also have "\<dots> \<longleftrightarrow> (\<forall>i<length hv.
      fmul (fsub (hv ! i) (yv ! i)) (fsub (hv ! i) (yv ! i)) = Finite 0)"
    unfolding len using squares_nth [OF assms(1)] by (intro all_cong) (simp only:)
  finally show ?thesis
    by (simp only: square_eq_zero_iff)
qed

lemma float_loss_nonneg:
  assumes "length hv = length yv"
    and "\<forall>i<length hv. finite_float64 (hv ! i) \<and> finite_float64 (yv ! i)"
  shows "\<exists>l. L_float64 hv yv = Inr l \<and> fge0 l"
proof -
  let ?ss = "map (\<lambda>a. fmul a a) (map2 fsub hv yv)"
  have len: "length ?ss = length hv"
    using assms(1) by (rule squares_length)
  have ok: "\<forall>i<length ?ss. grid_nonneg (?ss ! i)"
  proof (intro allI impI)
    fix i
    assume "i < length ?ss"
    then have i: "i < length hv"
      by (simp only: len)
    then have "grid_nonneg (fmul (fsub (hv ! i) (yv ! i)) (fsub (hv ! i) (yv ! i)))"
      using assms(2) by (intro square_finite_grid_nonneg) blast+
    then show "grid_nonneg (?ss ! i)"
      by (simp only: squares_nth [OF assms(1) i])
  qed
  then have "grid_nonneg (foldl fadd (Finite 0) ?ss)"
    by (rule sum64_grid_nonneg)
  then have "fge0 (foldl fadd (Finite 0) ?ss)"
    by (rule grid_nonneg_fge0)
  then show ?thesis
    using L_float64_equal_length [OF assms(1)] by blast
qed

lemma float_grad_eq_zero_iff:
  assumes "length hv = length yv"
    and "\<forall>i<length hv. finite_float64 (hv ! i) \<and> finite_float64 (yv ! i)"
  shows "grad_L_h_func_float64 hv yv = Inr (replicate (length hv) (Finite 0)) \<longleftrightarrow> hv = yv"
proof
  assume "hv = yv"
  have "map2 (\<lambda>a b. fmul (Finite 2) (fsub a b)) hv yv = replicate (length hv) (Finite 0)"
  proof (rule nth_equalityI)
    show "length (map2 (\<lambda>a b. fmul (Finite 2) (fsub a b)) hv yv)
        = length (replicate (length hv) (Finite 0 :: float64))"
      using assms(1) by simp
  next
    fix i
    assume "i < length (map2 (\<lambda>a b. fmul (Finite 2) (fsub a b)) hv yv)"
    then have i: "i < length hv"
      using assms(1) by simp
    then have "fmul (Finite 2) (fsub (hv ! i) (yv ! i)) = Finite 0"
      using assms(2) \<open>hv = yv\<close> double_eq_zero_iff [of "hv ! i" "yv ! i"] by simp
    then show "map2 (\<lambda>a b. fmul (Finite 2) (fsub a b)) hv yv ! i
        = replicate (length hv) (Finite 0) ! i"
      using i assms(1) by simp
  qed
  then show "grad_L_h_func_float64 hv yv = Inr (replicate (length hv) (Finite 0))"
    using assms(1) by (simp add: grad_L_h_func_float64_def)
next
  assume "grad_L_h_func_float64 hv yv = Inr (replicate (length hv) (Finite 0))"
  then have eq: "map2 (\<lambda>a b. fmul (Finite 2) (fsub a b)) hv yv = replicate (length hv) (Finite 0)"
    using assms(1) by (simp add: grad_L_h_func_float64_def)
  show "hv = yv"
  proof (rule nth_equalityI)
    show "length hv = length yv"
      by (rule assms(1))
  next
    fix i
    assume i: "i < length hv"
    have "map2 (\<lambda>a b. fmul (Finite 2) (fsub a b)) hv yv ! i = Finite 0"
      using i by (simp only: eq nth_replicate)
    then have "fmul (Finite 2) (fsub (hv ! i) (yv ! i)) = Finite 0"
      using i assms(1) by simp
    then show "hv ! i = yv ! i"
      using assms(2) i double_eq_zero_iff [of "hv ! i" "yv ! i"] by simp
  qed
qed

section \<open>Powers of two are float64 numbers\<close>

lemma round64_zero: "round64 0 = Finite 0"
  using max_float64_nonneg by (simp add: round64_def rnd_def)

lemma floor_log2_powi: "\<lfloor>log 2 (2 powi e)\<rfloor> = e"
proof -
  have "(2 :: real) powi e = 2 powr (of_int e)"
    by (simp add: powr_real_of_int')
  then have "log 2 (2 powi e) = of_int e"
    by simp
  then show ?thesis
    by simp
qed

lemma rnd_two_powi:
  assumes "- 1022 \<le> e"
  shows "rnd (2 powi e) = 2 powi e"
proof -
  have pos: "(0 :: real) < 2 powi e"
    by (rule zero_less_power_int) simp
  then have "\<bar>(2 :: real) powi e\<bar> = 2 powi e"
    by simp
  then have "ulp (2 powi e) = 2 powi (max e (- 1022) - 52)"
    by (simp only: ulp_def floor_log2_powi)
  then have u: "ulp (2 powi e) = 2 powi (e - 52)"
    using assms by (simp only: max_absorb1)
  have "(2 :: real) powi (52 + (e - 52)) = 2 powi 52 * 2 powi (e - 52)"
    by (rule two_powi_add)
  moreover have "52 + (e - 52) = e"
    by simp
  ultimately have "(2 :: real) powi e = 2 powi 52 * 2 powi (e - 52)"
    by (simp only:)
  then have split: "(2 :: real) powi e = of_int (2 ^ 52) * 2 powi (e - 52)"
    by simp
  have nz: "(2 :: real) powi (e - 52) \<noteq> 0"
    using zero_less_power_int [of "2 :: real" "e - 52"] by simp
  have "2 powi e / ulp (2 powi e) = of_int (2 ^ 52)"
    unfolding u by (subst split) (rule nonzero_mult_div_cancel_right [OF nz])
  then have "rte (2 powi e / ulp (2 powi e)) = 2 ^ 52"
    by (simp only: rte_of_int)
  then have "rnd (2 powi e) = of_int (2 ^ 52) * 2 powi (e - 52)"
    using pos by (simp add: rnd_def u)
  then show ?thesis
    by (simp only: split [symmetric])
qed

lemma round64_two_powi:
  assumes "- 1022 \<le> e" and "e \<le> 1023"
  shows "round64 (2 powi e) = Finite (2 powi e)"
proof -
  have "(2 :: real) powi e \<le> 2 powi 1023"
    using assms(2) by (intro power_int_increasing) simp_all
  also have "\<dots> \<le> max_float64"
    by (simp add: max_float64_def)
  finally have "\<bar>(2 :: real) powi e\<bar> \<le> max_float64"
    using zero_less_power_int [of "2 :: real" e] by simp
  then show ?thesis
    by (simp add: round64_def rnd_two_powi [OF assms(1)])
qed

lemma finite_float64_zero: "finite_float64 (Finite 0)"
  by (simp add: finite_float64_def round64_zero)

lemma finite_float64_two_powi:
  "- 1022 \<le> e \<Longrightarrow> e \<le> 1023 \<Longrightarrow> finite_float64 (Finite (2 powi e))"
  by (simp add: finite_float64_def round64_two_powi)

lemma finite_float64_one: "finite_float64 (Finite 1)"
  using finite_float64_two_powi [of 0] by simp

lemma round64_one: "round64 1 = Finite 1"
  using round64_two_powi [of 0] by simp

lemma round64_two: "round64 2 = Finite 2"
  using round64_two_powi [of 1] by simp

section \<open>The float64 loss vanishes where the squares underflow\<close>

text \<open>
  Claim C10 says that the loss of vectors of equal length is zero only when they are equal.
  The notebook computes in float64: at \<open>h = [2\<^sup>-\<^sup>5\<^sup>4\<^sup>0]\<close> and \<open>y = [0]\<close>, both float64 numbers,
  the square \<open>2\<^sup>-\<^sup>1\<^sup>0\<^sup>8\<^sup>0\<close> of the difference rounds to zero, so the loss is \<open>0\<close> although
  \<open>h \<noteq> y\<close> and the gradient \<open>[2\<^sup>-\<^sup>5\<^sup>3\<^sup>9]\<close> is not zero.
\<close>

theorem float_loss_underflow_counterexample:
  "finite_float64 (Finite (2 powi (- 540))) \<and> finite_float64 (Finite 0)
   \<and> [Finite (2 powi (- 540))] \<noteq> [Finite 0]
   \<and> L_float64 [Finite (2 powi (- 540))] [Finite 0] = Inr (Finite 0)
   \<and> grad_L_h_func_float64 [Finite (2 powi (- 540))] [Finite 0] = Inr [Finite (2 powi (- 539))]"
proof -
  define t :: real where "t = 2 powi (- 540)"
  have t0: "t \<noteq> 0"
    using zero_less_power_int [of "2 :: real" "- 540"] by (simp only: t_def) simp
  have r: "round64 t = Finite t"
    unfolding t_def by (rule round64_two_powi) simp_all
  have f: "finite_float64 (Finite t)"
    unfolding t_def by (rule finite_float64_two_powi) simp_all
  have "(2 :: real) powi (- 540 + - 540) = 2 powi (- 540) * 2 powi (- 540)"
    by (rule two_powi_add)
  then have tt: "t * t = 2 powi (- 1080)"
    by (simp only: t_def) simp
  have "(2 :: real) powi (- 1080) \<le> 2 powi (- 1075)"
    by (intro power_int_increasing) simp_all
  then have "\<bar>t * t\<bar> \<le> 2 powi (- 1075)"
    using zero_less_power_int [of "2 :: real" "- 1080"] by (simp only: tt) simp
  then have sq: "round64 (t * t) = Finite 0"
    by (simp only: round64_eq_zero_iff)
  have "(2 :: real) powi (1 + - 540) = 2 powi 1 * 2 powi (- 540)"
    by (rule two_powi_add)
  then have d: "2 * t = 2 powi (- 539)"
    by (simp only: t_def) simp
  have "round64 (2 powi (- 539)) = Finite (2 powi (- 539))"
    by (rule round64_two_powi) simp_all
  then have g: "round64 (2 * t) = Finite (2 powi (- 539))"
    by (simp only: d)
  have 1: "L_float64 [Finite t] [Finite 0] = Inr (Finite 0)"
    by (simp add: L_float64_def broadcast2_def r sq round64_zero)
  have 2: "grad_L_h_func_float64 [Finite t] [Finite 0] = Inr [Finite (2 powi (- 539))]"
    by (simp add: grad_L_h_func_float64_def r g)
  have 3: "[Finite t] \<noteq> [Finite 0]"
    using t0 by simp
  show ?thesis
    using f finite_float64_zero 1 2 3 unfolding t_def by blast
qed

text \<open>
  Claim C10, amended. For vectors \<open>hv\<close> and \<open>yv\<close> of equal length of finite float64 numbers
  the loss returns a value that is not negative (it may be the positive infinity), and it
  is zero whenever \<open>hv = yv\<close>; it is zero exactly when every square rounds to zero, that
  is when every rounded difference \<open>d = hv[i] - yv[i]\<close> has \<open>d\<^sup>2 \<le> 2\<^sup>-\<^sup>1\<^sup>0\<^sup>7\<^sup>5\<close>. The gradient of
  the loss with respect to the prediction is the zero vector exactly when \<open>hv = yv\<close>.
\<close>

theorem float_loss_zero:
  assumes "length hv = length yv"
    and "\<forall>i<length hv. finite_float64 (hv ! i) \<and> finite_float64 (yv ! i)"
  shows "(\<exists>l. L_float64 hv yv = Inr l \<and> fge0 l)
    \<and> (hv = yv \<longrightarrow> L_float64 hv yv = Inr (Finite 0))
    \<and> (L_float64 hv yv = Inr (Finite 0) \<longleftrightarrow>
        (\<forall>i<length hv. \<exists>d. fsub (hv ! i) (yv ! i) = Finite d \<and> d ^ 2 \<le> 2 powi (- 1075)))
    \<and> (grad_L_h_func_float64 hv yv = Inr (replicate (length hv) (Finite 0)) \<longleftrightarrow> hv = yv)"
proof -
  have 3: "L_float64 hv yv = Inr (Finite 0) \<longleftrightarrow>
      (\<forall>i<length hv. \<exists>d. fsub (hv ! i) (yv ! i) = Finite d \<and> d ^ 2 \<le> 2 powi (- 1075))"
    using assms by (rule float_loss_eq_zero_iff)
  have 2: "L_float64 hv yv = Inr (Finite 0)" if "hv = yv"
  proof -
    have "\<exists>d. fsub (hv ! i) (yv ! i) = Finite d \<and> d ^ 2 \<le> 2 powi (- 1075)"
      if "i < length hv" for i
    proof -
      have "fsub (hv ! i) (yv ! i) = Finite 0"
        using fsub_eq_zero_iff [of "hv ! i" "yv ! i"] assms(2) that \<open>hv = yv\<close> by simp
      then show ?thesis
        using zero_small by blast
    qed
    then show ?thesis
      using 3 by blast
  qed
  show ?thesis
    using 2 3 float_loss_nonneg [OF assms] float_grad_eq_zero_iff [OF assms] by blast
qed

theorem float_loss_zero_witness:
  "(\<exists>l. L_float64 [Finite 1] [Finite 0] = Inr l \<and> fge0 l)
   \<and> L_float64 [Finite 1] [Finite 1] = Inr (Finite 0)
   \<and> grad_L_h_func_float64 [Finite 1] [Finite 0] \<noteq> Inr [Finite 0]
   \<and> grad_L_h_func_float64 [Finite 1] [Finite 1] = Inr [Finite 0]"
proof -
  have a: "length [Finite 1] = length [Finite 0]" and b: "length [Finite 1] = length [Finite 1]"
    by simp_all
  have c: "\<forall>i<length [Finite 1]. finite_float64 ([Finite 1] ! i) \<and> finite_float64 ([Finite 0] ! i)"
    by (simp add: finite_float64_one finite_float64_zero)
  have d: "\<forall>i<length [Finite 1]. finite_float64 ([Finite 1] ! i) \<and> finite_float64 ([Finite 1] ! i)"
    by (simp add: finite_float64_one)
  show ?thesis
    using float_loss_zero [OF a c] float_loss_zero [OF b d] by simp
qed

section \<open>The backward pass as a chain of vector-Jacobian products\<close>

lemma map2_nth_upt:
  "length a = length b \<Longrightarrow> map2 f a b = map (\<lambda>i. f (a ! i) (b ! i)) [0..<length a]"
  by (rule nth_equalityI) simp_all

text \<open>
  Claim C1. For \<open>x\<close> and \<open>yv\<close> of equal length the backward pass composed of the three
  stages, \<open>J_L_x_explicit\<close>, equals the gradient \<open>grad_L_x_func\<close> of the loss with respect to
  \<open>x\<close>; that gradient is \<open>4 * (h - y) * h * x\<close> elementwise, with \<open>h = h x\<close>, and each of its
  elements is the partial derivative of the notebook's \<open>L_x\<close> with respect to that element
  of \<open>x\<close>.
\<close>

theorem chain_rule_consistency:
  assumes "length x = length yv"
  shows "J_L_x_explicit x yv = grad_L_x_func x yv
    \<and> grad_L_x_func x yv =
        Inr (map (\<lambda>i. 4 * (h x ! i - yv ! i) * h x ! i * x ! i) [0..<length x])
    \<and> (\<forall>i<length x.
          partial1 (\<lambda>u. projr (L_x u yv)) x i (4 * (h x ! i - yv ! i) * h x ! i * x ! i))"
proof -
  have "map2 (\<lambda>a b. 2 * a * b) x
          (map2 (\<lambda>a b. exp a * b) (f1 x) (map2 (\<lambda>a b. 2 * (a - b)) (h x) yv))
      = map2 (\<lambda>a b. 4 * (exp (a ^ 2) - b) * exp (a ^ 2) * a) x yv"
    using assms by (intro nth_equalityI) (simp_all add: length_h length_f1 h_nth f1_nth)
  then have a: "J_L_x_explicit x yv = grad_L_x_func x yv"
    using assms
    by (simp add: J_L_x_explicit_def grad_L_x_func_def grad_L_h_func_def vjp_h_f1_func_def
        vjp_f1_x_func_def elementwise_def length_h length_f1)
  have b: "grad_L_x_func x yv =
      Inr (map (\<lambda>i. 4 * (h x ! i - yv ! i) * h x ! i * x ! i) [0..<length x])"
    using assms by (simp add: grad_L_x_func_def elementwise_def map2_nth_upt h_nth)
  show ?thesis
    using a b grad_L_x_is_gradient [OF assms] by blast
qed

theorem chain_rule_consistency_witness:
  "J_L_x_explicit [0, 1] [1, 0] = Inr [0, 4 * exp 1 * exp 1]
   \<and> grad_L_x_func [0, 1] [1, 0] = Inr [0, 4 * exp 1 * exp 1]"
proof -
  have "length [0, 1 :: real] = length [1, 0 :: real]"
    by simp
  from chain_rule_consistency [OF this] show ?thesis
    by (simp add: h_def f1_def f2_def)
qed

section \<open>The products of the cross-term example\<close>

lemma vjp_g_nth:
  assumes "length p = length v" and "j < length v"
  shows "projr (vjp_g_v_func v p) ! j = real (length v - j) * p ! (length v - 1 - j)"
proof -
  let ?n = "length v"
  have k: "?n - 1 - j < ?n"
    using assms(2) by simp
  have "(\<Sum>i<?n. J_g ?n i j * p ! i)
      = (\<Sum>i<?n. if i = ?n - 1 - j then real (i + 1) * p ! i else 0)"
    using assms(2) by (intro sum.cong) (auto simp: J_g_def)
  also have "\<dots> = real (?n - 1 - j + 1) * p ! (?n - 1 - j)"
    using k by simp
  also have "\<dots> = real (?n - j) * p ! (?n - 1 - j)"
    using assms(2) by simp
  finally show ?thesis
    using assms by (simp add: vjp_g_v_func_def matTvec_def)
qed

lemma jvp_g_nth:
  assumes "length p = length v" and "i < length v"
  shows "projr (jvp_g_v_func v p) ! i = real (i + 1) * p ! (length v - 1 - i)"
proof -
  let ?n = "length v"
  have k: "?n - 1 - i < ?n"
    using assms(2) by simp
  have "(\<Sum>j<?n. J_g ?n i j * p ! j)
      = (\<Sum>j<?n. if j = ?n - 1 - i then real (i + 1) * p ! j else 0)"
    using assms(2) by (intro sum.cong) (auto simp: J_g_def)
  also have "\<dots> = real (i + 1) * p ! (?n - 1 - i)"
    using k by simp
  finally show ?thesis
    using assms by (simp add: jvp_g_v_func_def matvec_def)
qed

lemma jvp_g_is_g:
  assumes "length p = length v"
  shows "jvp_g_v_func v p = Inr (g p)"
proof -
  have "projr (jvp_g_v_func v p) = g p"
  proof (rule nth_equalityI)
    show "length (projr (jvp_g_v_func v p)) = length (g p)"
      using assms by (simp add: jvp_g_v_func_def matvec_def length_g)
  next
    fix i
    assume "i < length (projr (jvp_g_v_func v p))"
    then have "i < length v"
      using assms by (simp add: jvp_g_v_func_def matvec_def)
    then show "projr (jvp_g_v_func v p) ! i = g p ! i"
      using assms by (simp add: jvp_g_nth g_nth)
  qed
  then show ?thesis
    using assms by (simp add: jvp_g_v_func_def)
qed

text \<open>
  Claim C3. For \<open>g\<close> at \<open>v = [1, 2]\<close> and \<open>p = [1, 1]\<close> the vector-Jacobian product is
  \<open>[2, 1]\<close> and the Jacobian-vector product is \<open>[1, 2]\<close>, the two lines the notebook prints.
\<close>

theorem g_products_example:
  "vjp_g_v_func [1, 2] [1, 1] = Inr [2, 1] \<and> jvp_g_v_func [1, 2] [1, 1] = Inr [1, 2]"
  by (simp add: vjp_g_v_func_def jvp_g_v_func_def matTvec_def matvec_def J_g_def
      upt_rec lessThan_Suc numeral_2_eq_2)

text \<open>
  Claim C2 gives the Jacobian of \<open>g\<close> as \<open>J[i][j] = j + 1\<close> where \<open>i + j = N - 1\<close>. At
  \<open>v = [1, 2]\<close> that puts \<open>2\<close> in row \<open>0\<close>, column \<open>1\<close>, where the partial derivative of
  \<open>g(v)[0] = v[1] * 1\<close> with respect to \<open>v[1]\<close> is \<open>1\<close>; and its transpose times \<open>[1, 1]\<close>
  is not the vector-Jacobian product \<open>[2, 1]\<close>.
\<close>

theorem g_jacobian_spec_counterexample:
  "\<not> partial g [1, 2] 0 1 (J_g_spec 2 0 1)
   \<and> vjp_g_v_func [1, 2] [1, 1] \<noteq> Inr (matTvec 2 (J_g_spec 2) [1, 1])"
proof -
  have "partial g [1, 2] 0 1 (J_g (length [1, 2 :: real]) 0 1)"
    by (rule g_jacobian) simp_all
  then have d: "partial g [1, 2] 0 1 1"
    by (simp add: J_g_def)
  have "\<not> partial g [1, 2] 0 1 2"
  proof
    assume "partial g [1, 2] 0 1 2"
    then have "(1 :: real) = 2"
      using d unfolding partial_def by (rule DERIV_unique [symmetric])
    then show False
      by simp
  qed
  moreover have "J_g_spec 2 0 1 = 2"
    by (simp add: J_g_spec_def)
  moreover have "vjp_g_v_func [1, 2] [1, 1] \<noteq> Inr (matTvec 2 (J_g_spec 2) [1, 1])"
    by (simp add: vjp_g_v_func_def matTvec_def J_g_def J_g_spec_def
        upt_rec lessThan_Suc numeral_2_eq_2)
  ultimately show ?thesis
    by simp
qed

text \<open>
  Claim C2, amended. At every \<open>v\<close> of length \<open>N\<close> the Jacobian of \<open>g\<close> is the matrix with
  \<open>J[i][j] = i + 1\<close> when \<open>i + j = N - 1\<close> and \<open>0\<close> otherwise: each entry is the partial
  derivative of output \<open>i\<close> of \<open>g\<close> with respect to input \<open>j\<close>. For every \<open>p\<close> of length \<open>N\<close>
  the vector-Jacobian product is the transpose of this matrix times \<open>p\<close> and the
  Jacobian-vector product is this matrix times \<open>p\<close>.
\<close>

theorem g_jacobian_products:
  assumes "length p = length v"
  shows "(\<forall>i<length v. \<forall>j<length v.
            partial g v i j (J_g (length v) i j)
            \<and> J_g (length v) i j = (if i + j = length v - 1 then real (i + 1) else 0))
    \<and> vjp_g_v_func v p = Inr (matTvec (length v) (J_g (length v)) p)
    \<and> jvp_g_v_func v p = Inr (matvec (length v) (J_g (length v)) p)"
proof -
  have "J_g (length v) i j = (if i + j = length v - 1 then real (i + 1) else 0)"
    if "i < length v" for i j
    using that by (auto simp: J_g_def)
  then show ?thesis
    using assms g_jacobian [of _ v] by (simp add: vjp_g_v_func_def jvp_g_v_func_def)
qed

theorem g_jacobian_products_witness:
  "partial g [1, 2] 0 1 1 \<and> partial g [1, 2] 1 0 2 \<and> partial g [1, 2] 0 0 0
   \<and> vjp_g_v_func [1, 2] [5, 7] = Inr [14, 5] \<and> jvp_g_v_func [1, 2] [5, 7] = Inr [7, 10]"
proof -
  have "length [5, 7 :: real] = length [1, 2 :: real]"
    by simp
  from g_jacobian_products [OF this] show ?thesis
    by (simp add: J_g_def matTvec_def matvec_def upt_rec lessThan_Suc numeral_2_eq_2 All_less_Suc)
qed

section \<open>When the two products agree\<close>

lemma symmetric_J_g_iff: "symmetric n (J_g n) \<longleftrightarrow> n \<le> 1"
proof
  assume s: "symmetric n (J_g n)"
  show "n \<le> 1"
  proof (rule ccontr)
    assume "\<not> n \<le> 1"
    then have n: "2 \<le> n"
      by simp
    then have "J_g n 0 (n - 1) = J_g n (n - 1) 0"
      using s by (simp add: symmetric_def)
    then show False
      using n by (simp add: J_g_def)
  qed
next
  assume "n \<le> 1"
  then show "symmetric n (J_g n)"
    by (auto simp: symmetric_def J_g_def)
qed

lemma vjp_eq_jvp_iff:
  assumes "length p = length v"
  shows "vjp_g_v_func v p = jvp_g_v_func v p
    \<longleftrightarrow> (\<forall>k<length v. 2 * k + 1 = length v \<or> p ! k = 0)"
proof -
  let ?n = "length v"
  have len: "length (projr (vjp_g_v_func v p)) = ?n" "length (projr (jvp_g_v_func v p)) = ?n"
    using assms by (simp_all add: vjp_g_v_func_def jvp_g_v_func_def matTvec_def matvec_def)
  have "vjp_g_v_func v p = jvp_g_v_func v p
      \<longleftrightarrow> projr (vjp_g_v_func v p) = projr (jvp_g_v_func v p)"
    using assms by (simp add: vjp_g_v_func_def jvp_g_v_func_def)
  also have "\<dots> \<longleftrightarrow> (\<forall>j<?n. projr (vjp_g_v_func v p) ! j = projr (jvp_g_v_func v p) ! j)"
    using len by (simp add: list_eq_iff_nth_eq)
  also have "\<dots> \<longleftrightarrow> (\<forall>j<?n. real (?n - j) * p ! (?n - 1 - j) = real (j + 1) * p ! (?n - 1 - j))"
    using assms by (simp add: vjp_g_nth jvp_g_nth)
  also have "\<dots> \<longleftrightarrow> (\<forall>j<?n. 2 * j + 1 = ?n \<or> p ! (?n - 1 - j) = 0)"
  proof -
    have "real (?n - j) = real (j + 1) \<longleftrightarrow> 2 * j + 1 = ?n" if "j < ?n" for j
      using that by (simp only: of_nat_eq_iff) arith
    then show ?thesis
      by (auto simp del: of_nat_Suc of_nat_add of_nat_diff)
  qed
  also have "\<dots> \<longleftrightarrow> (\<forall>k<?n. 2 * k + 1 = ?n \<or> p ! k = 0)"
  proof
    assume a: "\<forall>j<?n. 2 * j + 1 = ?n \<or> p ! (?n - 1 - j) = 0"
    show "\<forall>k<?n. 2 * k + 1 = ?n \<or> p ! k = 0"
    proof (intro allI impI)
      fix k
      assume k: "k < ?n"
      then have "?n - 1 - k < ?n" and "?n - 1 - (?n - 1 - k) = k"
        by simp_all
      then have "2 * (?n - 1 - k) + 1 = ?n \<or> p ! k = 0"
        using a by metis
      then show "2 * k + 1 = ?n \<or> p ! k = 0"
        using k by auto
    qed
  next
    assume a: "\<forall>k<?n. 2 * k + 1 = ?n \<or> p ! k = 0"
    show "\<forall>j<?n. 2 * j + 1 = ?n \<or> p ! (?n - 1 - j) = 0"
    proof (intro allI impI)
      fix j
      assume j: "j < ?n"
      then have "?n - 1 - j < ?n"
        by simp
      then have "2 * (?n - 1 - j) + 1 = ?n \<or> p ! (?n - 1 - j) = 0"
        using a by blast
      then show "2 * j + 1 = ?n \<or> p ! (?n - 1 - j) = 0"
        using j by auto
    qed
  qed
  finally show ?thesis .
qed

text \<open>
  Claim C5 says that the two products of \<open>g\<close> differ whenever the Jacobian is not symmetric.
  At \<open>v = [1, 2]\<close> the Jacobian is not symmetric, and at \<open>p = [0, 0]\<close> both products are
  \<open>[0, 0]\<close>.
\<close>

theorem vjp_jvp_zero_counterexample:
  "\<not> symmetric 2 (J_g 2) \<and> vjp_g_v_func [1, 2] [0, 0] = jvp_g_v_func [1, 2] [0, 0]"
proof -
  have "\<not> symmetric 2 (J_g 2)"
    by (simp add: symmetric_J_g_iff)
  moreover have "vjp_g_v_func [1, 2] [0, 0] = jvp_g_v_func [1, 2] [0, 0]"
    by (simp add: vjp_g_v_func_def jvp_g_v_func_def matTvec_def matvec_def)
  ultimately show ?thesis
    by simp
qed

text \<open>
  Claim C5, amended. The Jacobian of \<open>g\<close> on vectors of length \<open>N\<close> is symmetric exactly when
  \<open>N \<le> 1\<close>. For \<open>p\<close> of length \<open>N\<close> the two products of \<open>g\<close> are equal exactly when every
  component of \<open>p\<close> away from the middle index (\<open>2 k + 1 = N\<close>) is zero: so they differ at
  every \<open>p\<close> without a zero component when \<open>N \<ge> 2\<close>, as at \<open>v = [1, 2]\<close>, \<open>p = [1, 1]\<close>, and
  they agree at \<open>p = 0\<close>. For every symmetric matrix the transposed product equals the
  product; the Jacobians \<open>J_f1_x\<close> and \<open>J_f2_f1\<close> of the main example are diagonal, hence
  symmetric, at every \<open>x\<close>, and their vector-Jacobian products are both the transposed
  product and the product, for every \<open>w\<close> of the length of \<open>x\<close>.
\<close>

theorem vjp_jvp_agreement:
  assumes "length p = length v" and "length w = length x"
  shows "(symmetric (length v) (J_g (length v)) \<longleftrightarrow> length v \<le> 1)
    \<and> (vjp_g_v_func v p = jvp_g_v_func v p
        \<longleftrightarrow> (\<forall>k<length v. 2 * k + 1 = length v \<or> p ! k = 0))
    \<and> (symmetric n J \<longrightarrow> matTvec n J q = matvec n J q)
    \<and> symmetric (length x) (J_f1_x x)
    \<and> vjp_f1_x_func x w = Inr (matTvec (length x) (J_f1_x x) w)
    \<and> vjp_f1_x_func x w = Inr (matvec (length x) (J_f1_x x) w)
    \<and> symmetric (length x) (J_f2_f1 (f1 x))
    \<and> vjp_h_f1_func (f1 x) w = Inr (matTvec (length x) (J_f2_f1 (f1 x)) w)
    \<and> vjp_h_f1_func (f1 x) w = Inr (matvec (length x) (J_f2_f1 (f1 x)) w)"
proof -
  have 1: "vjp_f1_x_func x w = Inr (matvec (length x) (J_f1_x x) w)"
    using assms(2) by (rule vjp_f1_x_matvec)
  have "length w = length (f1 x)"
    using assms(2) by (simp add: length_f1)
  then have "vjp_h_f1_func (f1 x) w = Inr (matvec (length (f1 x)) (J_f2_f1 (f1 x)) w)"
    by (rule vjp_h_f1_matvec)
  then have 2: "vjp_h_f1_func (f1 x) w = Inr (matvec (length x) (J_f2_f1 (f1 x)) w)"
    by (simp add: length_f1)
  show ?thesis
    using 1 2 symmetric_J_g_iff [of "length v"] vjp_eq_jvp_iff [OF assms(1)]
      matvec_symmetric [of n J q]
      matvec_symmetric [OF symmetric_J_f1_x, of "length x" x w] symmetric_J_f1_x [of "length x" x]
      matvec_symmetric [OF symmetric_J_f2_f1, of "length x" "f1 x" w]
      symmetric_J_f2_f1 [of "length x" "f1 x"]
    by simp
qed

theorem vjp_jvp_agreement_witness:
  "vjp_g_v_func [1, 2] [1, 1] \<noteq> jvp_g_v_func [1, 2] [1, 1]
   \<and> vjp_g_v_func [1, 2, 3] [0, 4, 0] = jvp_g_v_func [1, 2, 3] [0, 4, 0]"
proof -
  have a: "length [1, 1 :: real] = length [1, 2 :: real]"
    and b: "length [0, 4, 0 :: real] = length [1, 2, 3 :: real]"
    by simp_all
  have "\<not> (\<forall>k<length [1, 2 :: real]. 2 * k + 1 = length [1, 2 :: real] \<or> [1, 1 :: real] ! k = 0)"
    by (simp add: numeral_2_eq_2 All_less_Suc) 
  moreover have "\<forall>k<length [1, 2, 3 :: real].
      2 * k + 1 = length [1, 2, 3 :: real] \<or> [0, 4, 0 :: real] ! k = 0"
    by (simp add: numeral_3_eq_3 All_less_Suc)
  ultimately show ?thesis
    using vjp_jvp_agreement [OF a a] vjp_jvp_agreement [OF b b] by blast
qed

section \<open>The Hessian-vector product\<close>

text \<open>
  Claim C4. The Hessian-vector product of the loss with respect to the prediction returns
  \<open>2 * v\<close> elementwise, whatever the prediction \<open>hv\<close> and the target \<open>yv\<close> it is built at, for
  every \<open>v\<close> of the dimension of the problem; so at \<open>[1, 2]\<close> it returns \<open>[2, 4]\<close>.
\<close>

theorem hvp_is_twice:
  assumes "length hv = length yv" and "length v = length hv"
  shows "hvp_L_h_func hv yv v = Inr (map (\<lambda>a. 2 * a) v)"
  using assms by (rule hvp_twice)

theorem hvp_is_twice_witness:
  "hvp_L_h_func (h [1, 2]) [9.48773584, 518.01282467] [1, 2] = Inr [2, 4]"
proof -
  have "length (h [1, 2]) = length [9.48773584, 518.01282467 :: real]"
    by (simp add: length_h)
  moreover have "length [1, 2 :: real] = length (h [1, 2])"
    by (simp add: length_h)
  ultimately show ?thesis
    using hvp_is_twice [of "h [1, 2]" "[9.48773584, 518.01282467]" "[1, 2]"] by simp
qed

section \<open>The reference values of the notebook\<close>

lemma exp_1_bounds: "2.71828182 \<le> exp (1 :: real) \<and> exp (1 :: real) \<le> 2.71828183"
proof -
  obtain t :: real where t: "\<bar>t\<bar> \<le> \<bar>1\<bar>"
    and e: "exp (1 :: real) = (\<Sum>m<13. 1 ^ m / fact m) + exp t / fact 13 * 1 ^ 13"
    using Maclaurin_exp_le [of 1 13] by blast
  have e1: "exp (1 :: real) = (\<Sum>m<13. 1 / fact m) + exp t / fact 13"
    using e by simp
  have s: "(\<Sum>m<13. (1 :: real) / fact m) = 260412269 / 95800320"
    by (simp add: lessThan_Suc eval_nat_numeral fact_numeral)
  have f: "fact 13 = (6227020800 :: real)"
    by (simp add: fact_numeral)
  have "exp t \<le> exp (1 :: real)"
    using t by simp
  also have "\<dots> \<le> 3"
    by (rule exp_le)
  finally have u: "exp t \<le> 3" .
  have l: "0 \<le> exp t"
    by simp
  have e': "exp (1 :: real) = 260412269 / 95800320 + exp t / 6227020800"
    by (simp only: e1 s f)
  have "2.71828182 \<le> 260412269 / 95800320 + r / 6227020800
      \<and> 260412269 / 95800320 + r / 6227020800 \<le> 2.71828183"
    if "0 \<le> r" and "r \<le> 3" for r :: real
    using that by simp
  from this [OF l u] show ?thesis
    by (simp only: e')
qed

lemma exp_4_bounds: "54.5981493 \<le> exp (4 :: real) \<and> exp (4 :: real) \<le> 54.5981502"
proof -
  have "exp (of_nat 4 * (1 :: real)) = exp 1 ^ 4"
    by (rule exp_of_nat_mult)
  then have e: "exp (4 :: real) = exp 1 ^ 4"
    by simp
  have "(54.5981493 :: real) \<le> 2.71828182 ^ 4"
    by (simp add: power_divide)
  also have "\<dots> \<le> exp 1 ^ 4"
    using exp_1_bounds by (intro power_mono) simp_all
  finally have lower: "54.5981493 \<le> exp (1 :: real) ^ 4" .
  have "exp (1 :: real) ^ 4 \<le> 2.71828183 ^ 4"
    using exp_1_bounds by (intro power_mono) simp_all
  also have "\<dots> \<le> 54.5981502"
    by (simp add: power_divide)
  finally have upper: "exp (1 :: real) ^ 4 \<le> 54.5981502" .
  show ?thesis
    using lower upper by (simp only: e simp_thms)
qed

lemma square_between:
  fixes u :: real
  assumes "a \<le> u" and "u \<le> b" and "b \<le> 0"
  shows "b ^ 2 \<le> u ^ 2 \<and> u ^ 2 \<le> a ^ 2"
proof -
  have "(- b) ^ 2 \<le> (- u) ^ 2"
    using assms by (intro power_mono) simp_all
  moreover have "(- u) ^ 2 \<le> (- a) ^ 2"
    using assms by (intro power_mono) simp_all
  ultimately show ?thesis
    by simp
qed

lemma loss_interval:
  fixes u w :: real
  assumes "- 6.76945402 \<le> u" and "u \<le> - 6.76945401"
    and "- 463.4146754 \<le> w" and "w \<le> - 463.4146744"
  shows "\<bar>u ^ 2 + w ^ 2 - 214798.986\<bar> \<le> 0.001"
proof -
  have "(- 6.76945401) ^ 2 \<le> u ^ 2 \<and> u ^ 2 \<le> (- 6.76945402) ^ 2"
    using assms(1,2) by (intro square_between) simp_all
  then have u1: "(- 6.76945401) ^ 2 \<le> u ^ 2" and u2: "u ^ 2 \<le> (- 6.76945402) ^ 2"
    by blast+
  have "(45.825507 :: real) \<le> (- 6.76945401) ^ 2"
    by (simp add: power_divide)
  also note u1
  finally have a: "45.825507 \<le> u ^ 2" .
  note u2
  also have "(- 6.76945402 :: real) ^ 2 \<le> 45.825508"
    by (simp add: power_divide)
  finally have b: "u ^ 2 \<le> 45.825508" .
  have "(- 463.4146744) ^ 2 \<le> w ^ 2 \<and> w ^ 2 \<le> (- 463.4146754) ^ 2"
    using assms(3,4) by (intro square_between) simp_all
  then have w1: "(- 463.4146744) ^ 2 \<le> w ^ 2" and w2: "w ^ 2 \<le> (- 463.4146754) ^ 2"
    by blast+
  have "(214753.16044 :: real) \<le> (- 463.4146744) ^ 2"
    by (simp add: power_divide)
  also note w1
  finally have c: "214753.16044 \<le> w ^ 2" .
  note w2
  also have "(- 463.4146754 :: real) ^ 2 \<le> 214753.16138"
    by (simp add: power_divide)
  finally have d: "w ^ 2 \<le> 214753.16138" .
  define U where "U = u ^ 2"
  define W where "W = w ^ 2"
  have "45.825507 \<le> U" "U \<le> 45.825508" "214753.16044 \<le> W" "W \<le> 214753.16138"
    using a b c d by (simp_all only: U_def W_def)
  then have "U + W - 214798.986 \<le> 0.001" and "- (U + W - 214798.986) \<le> 0.001"
    by simp_all
  then have "\<bar>U + W - 214798.986\<bar> \<le> 0.001"
    by (rule abs_leI)
  then show ?thesis
    by (simp only: U_def W_def)
qed

text \<open>
  Claim C7. At \<open>x = [1, 2]\<close> and \<open>y = [9.48773584, 518.01282467]\<close> the loss of the forward
  output is within the relative tolerance \<open>10\<^sup>-\<^sup>4\<close> of \<open>214798.986\<close> (indeed within \<open>0.001\<close> of
  it), and the gradient of the loss with respect to the prediction is within \<open>10\<^sup>-\<^sup>4\<close> of
  \<open>[-13.53890802, -926.82934927]\<close> in each component. The values are those of exact real
  arithmetic.
\<close>

theorem reference_values:
  "\<exists>l a b. L_x [1, 2] [9.48773584, 518.01282467] = Inr l
     \<and> L (h [1, 2]) [9.48773584, 518.01282467] = Inr l
     \<and> \<bar>l - 214798.986\<bar> \<le> 0.0001 * 214798.986
     \<and> \<bar>l - 214798.986\<bar> \<le> 0.001
     \<and> grad_L_h_func (h [1, 2]) [9.48773584, 518.01282467] = Inr [a, b]
     \<and> \<bar>a - (- 13.53890802)\<bar> \<le> 0.0001
     \<and> \<bar>b - (- 926.82934927)\<bar> \<le> 0.0001"
proof -
  define u :: real where "u = exp 1 - 9.48773584"
  define w :: real where "w = exp 4 - 518.01282467"
  have hx: "h [1, 2] = [exp 1, exp 4]"
    by (simp add: h_def f2_def f1_def)
  have 1: "L (h [1, 2]) [9.48773584, 518.01282467] = Inr (u ^ 2 + w ^ 2)"
    by (simp add: hx L_def broadcast2_def u_def w_def)
  have 2: "grad_L_h_func (h [1, 2]) [9.48773584, 518.01282467] = Inr [2 * u, 2 * w]"
    by (simp add: hx grad_L_h_func_def elementwise_def u_def w_def)
  define e1 :: real where "e1 = exp 1"
  define e4 :: real where "e4 = exp 4"
  have "2.71828182 \<le> e1" "e1 \<le> 2.71828183" "54.5981493 \<le> e4" "e4 \<le> 54.5981502"
    using exp_1_bounds exp_4_bounds by (simp_all only: e1_def e4_def)
  moreover have "u = e1 - 9.48773584" "w = e4 - 518.01282467"
    by (simp_all only: u_def w_def e1_def e4_def)
  ultimately have u: "- 6.76945402 \<le> u" "u \<le> - 6.76945401"
    and w: "- 463.4146754 \<le> w" "w \<le> - 463.4146744"
    by simp_all
  have 3: "\<bar>u ^ 2 + w ^ 2 - 214798.986\<bar> \<le> 0.001"
    using u w by (rule loss_interval)
  have "2 * u - (- 13.53890802) \<le> 0.0001" and "- (2 * u - (- 13.53890802)) \<le> 0.0001"
    using u by simp_all
  then have 4: "\<bar>2 * u - (- 13.53890802)\<bar> \<le> 0.0001"
    by (rule abs_leI)
  have "2 * w - (- 926.82934927) \<le> 0.0001" and "- (2 * w - (- 926.82934927)) \<le> 0.0001"
    using w by simp_all
  then have 6: "\<bar>2 * w - (- 926.82934927)\<bar> \<le> 0.0001"
    by (rule abs_leI)
  define l where "l = u ^ 2 + w ^ 2"
  have "\<bar>l - 214798.986\<bar> \<le> 0.001"
    using 3 by (simp only: l_def)
  also have "(0.001 :: real) \<le> 0.0001 * 214798.986"
    by simp
  finally have 5: "\<bar>l - 214798.986\<bar> \<le> 0.0001 * 214798.986" .
  have "L_x [1, 2] [9.48773584, 518.01282467] = Inr l"
    "L (h [1, 2]) [9.48773584, 518.01282467] = Inr l"
    "\<bar>l - 214798.986\<bar> \<le> 0.001"
    using 1 3 by (simp_all only: L_x_eq_L l_def)
  then show ?thesis
    using 2 4 5 6 by blast
qed

end
